theory Spec2Isabelle
  imports Complex_Main "HOL-Library.Multiset" "HOL-Library.AList"
begin

section \<open>Queue (src/Queue.ts)\<close>

text \<open>
  Tracks are value objects (types/index.ts, interfaces \<open>Track\<close> and \<open>TrackInfo\<close>).
  Field names that would clash with other records of this theory, or with HOL constants,
  carry a suffix.
\<close>

record TrackInfo =
  track_identifier :: string
  isSeekable :: bool
  author :: string
  length_ms :: int
  isStream :: bool
  position_ms :: int
  title :: string
  sourceName :: string
  uri :: "string option"
  artworkUrl :: "string option"
  isrc :: "string option"

record Track =
  encoded :: string
  info :: TrackInfo

datatype LoopMode = LoopMode_None | LoopMode_Track | LoopMode_Queue

record Queue =
  tracks :: "Track list"
  current :: "Track option"
  previous :: "Track option"
  loopMode :: LoopMode

text \<open>\<open>Array.prototype.shift\<close>: removes and returns the first element, \<open>undefined\<close> on
  an empty array (which \<open>?? null\<close> turns into \<open>null\<close>).\<close>

definition shift :: "'a list \<Rightarrow> 'a option \<times> 'a list" where
  "shift xs = (case xs of [] \<Rightarrow> (None, []) | x # rest \<Rightarrow> (Some x, rest))"

text \<open>\<open>Queue.poll\<close>: the result and the queue after the call.\<close>

definition poll :: "Queue \<Rightarrow> Track option \<times> Queue" where
  "poll q =
     (if loopMode q = LoopMode_Track \<and> current q \<noteq> None then (current q, q)
      else
        let q1 = q\<lparr>previous := current q\<rparr>;
            (front, rest) = shift (tracks q1);
            q2 = q1\<lparr>current := front, tracks := rest\<rparr>;
            q3 = (case (loopMode q2, current q2, previous q2) of
                    (LoopMode_Queue, Some c, Some p) \<Rightarrow> q2\<lparr>tracks := tracks q2 @ [p]\<rparr>
                  | _ \<Rightarrow> q2)
        in (current q3, q3))"

text \<open>\<open>n\<close> consecutive calls of \<open>poll\<close>: the results in call order and the final queue.\<close>

fun poll_n :: "nat \<Rightarrow> Queue \<Rightarrow> Track option list \<times> Queue" where
  "poll_n 0 q = ([], q)"
| "poll_n (Suc n) q =
     (let (r, q') = poll q; (rs, q'') = poll_n n q' in (r # rs, q''))"

text \<open>The tracks a queue holds: the list and the current track, as a multiset.\<close>

definition opt_list :: "'a option \<Rightarrow> 'a list" where
  "opt_list x = (case x of None \<Rightarrow> [] | Some v \<Rightarrow> [v])"

definition held :: "Queue \<Rightarrow> Track multiset" where
  "held q = mset (tracks q) + mset (opt_list (current q))"

text \<open>\<open>Queue.setLoopMode\<close> and \<open>Queue.toggleLoop\<close>.\<close>

definition setLoopMode :: "Queue \<Rightarrow> LoopMode \<Rightarrow> Queue" where
  "setLoopMode q mode = q\<lparr>loopMode := mode\<rparr>"

definition toggleLoop :: "Queue \<Rightarrow> LoopMode \<times> Queue" where
  "toggleLoop q =
     (let q' = q\<lparr>loopMode := (if loopMode q = LoopMode_None then LoopMode_Queue else LoopMode_None)\<rparr>
      in (loopMode q', q'))"

text \<open>A track fixture, after \<open>createMockTrack\<close> of the test suite.\<close>

definition mockTrack :: "string \<Rightarrow> string \<Rightarrow> Track" where
  "mockTrack i a =
     \<lparr>encoded = ''encoded_'' @ i,
      info = \<lparr>track_identifier = i, isSeekable = True, author = a, length_ms = 180000,
               isStream = False, position_ms = 0, title = ''Test Track '' @ i,
               sourceName = ''youtube'', uri = Some (''https://example.com/'' @ i),
               artworkUrl = None, isrc = None\<rparr>\<rparr>"

subsection \<open>Simple queue operations\<close>

definition add :: "Queue \<Rightarrow> Track \<Rightarrow> Queue" where
  "add q t = q\<lparr>tracks := tracks q @ [t]\<rparr>"

definition addMany :: "Queue \<Rightarrow> Track list \<Rightarrow> Queue" where
  "addMany q ts = q\<lparr>tracks := tracks q @ ts\<rparr>"

text \<open>\<open>remove(index)\<close>: \<open>undefined\<close> (\<open>None\<close>) outside the list.\<close>

definition remove :: "Queue \<Rightarrow> int \<Rightarrow> Track option \<times> Queue" where
  "remove q index =
     (if index < 0 \<or> index \<ge> int (length (tracks q)) then (None, q)
      else (Some (tracks q ! nat index),
            q\<lparr>tracks := take (nat index) (tracks q) @ drop (Suc (nat index)) (tracks q)\<rparr>))"

definition clear :: "Queue \<Rightarrow> Queue" where
  "clear q = q\<lparr>tracks := []\<rparr>"

definition size_q :: "Queue \<Rightarrow> nat" where
  "size_q q = length (tracks q)"

definition isEmpty :: "Queue \<Rightarrow> bool" where
  "isEmpty q = (length (tracks q) = 0)"

definition new_Queue :: Queue where
  "new_Queue = \<lparr>tracks = [], current = None, previous = None, loopMode = LoopMode_None\<rparr>"

subsection \<open>Shuffling\<close>

text \<open>
  \<open>Math.random\<close> is a parameter: \<open>rnd k\<close> stands for the \<open>k\<close>-th draw of an operation, and
  \<open>Math.floor(Math.random() * (i + 1))\<close>, an integer from 0 to \<open>i\<close>, is \<open>rnd k mod (i + 1)\<close>.
  Every choice of draws is some \<open>rnd\<close>.
\<close>

type_synonym Random = "nat \<Rightarrow> nat"

text \<open>The swap \<open>[a[i], a[j]] = [a[j], a[i]]\<close>.\<close>

definition swap :: "'a list \<Rightarrow> nat \<Rightarrow> nat \<Rightarrow> 'a list" where
  "swap xs i j = xs[i := xs ! j, j := xs ! i]"

text \<open>The Fisher-Yates loop \<open>for (i = length - 1; i > 0; i--)\<close>, from index \<open>i\<close> on, the next
  draw being the \<open>k\<close>-th.\<close>

fun fisherYates :: "Random \<Rightarrow> nat \<Rightarrow> nat \<Rightarrow> 'a list \<Rightarrow> 'a list" where
  "fisherYates rnd k 0 xs = xs"
| "fisherYates rnd k (Suc i) xs =
     fisherYates rnd (Suc k) i (swap xs (Suc i) (rnd k mod (Suc i + 1)))"

definition shuffle_q :: "Queue \<Rightarrow> Random \<Rightarrow> Queue" where
  "shuffle_q q rnd = q\<lparr>tracks := fisherYates rnd 0 (length (tracks q) - 1) (tracks q)\<rparr>"

subsection \<open>Smart shuffle\<close>

text \<open>
  \<open>author.trim().toLowerCase()\<close>, on ASCII strings: \<open>trim\<close> strips white space at both ends,
  \<open>toLowerCase\<close> maps \<open>A\<close> to \<open>Z\<close> to \<open>a\<close> to \<open>z\<close>. (Characters beyond ASCII are outside this model;
  no property below depends on what the key function does.)
\<close>

definition is_space :: "char \<Rightarrow> bool" where
  "is_space c = (c \<in> set [CHR '' '', CHR 0x09, CHR 0x0A, CHR 0x0B, CHR 0x0C, CHR 0x0D])"

definition trim :: "string \<Rightarrow> string" where
  "trim s = rev (dropWhile is_space (rev (dropWhile is_space s)))"

definition lower_char :: "char \<Rightarrow> char" where
  "lower_char c =
     (case map_of (zip ''ABCDEFGHIJKLMNOPQRSTUVWXYZ'' ''abcdefghijklmnopqrstuvwxyz'') c of
        None \<Rightarrow> c | Some d \<Rightarrow> d)"

definition toLowerCase :: "string \<Rightarrow> string" where
  "toLowerCase s = map lower_char s"

definition artistKey :: "Track \<Rightarrow> string" where
  "artistKey t = toLowerCase (trim (author (info t)))"

record ArtistBucket =
  key_b :: string
  tracks_b :: "Track list"

text \<open>
  \<open>artistGroups\<close>, a \<open>Map\<close> in insertion order: a track joins the group of its key, or opens
  a new group at the end.
\<close>

fun group_push :: "string \<Rightarrow> Track \<Rightarrow> ArtistBucket list \<Rightarrow> ArtistBucket list" where
  "group_push k t [] = [\<lparr>key_b = k, tracks_b = [t]\<rparr>]"
| "group_push k t (b # bs) =
     (if key_b b = k then b\<lparr>tracks_b := tracks_b b @ [t]\<rparr> # bs else b # group_push k t bs)"

definition artistGroups :: "Track list \<Rightarrow> ArtistBucket list" where
  "artistGroups ts = fold (\<lambda>t g. group_push (artistKey t) t g) ts []"

text \<open>Each group is shuffled in turn; the draws continue from group to group.\<close>

fun shuffle_buckets :: "Random \<Rightarrow> nat \<Rightarrow> ArtistBucket list \<Rightarrow> ArtistBucket list" where
  "shuffle_buckets rnd k [] = []"
| "shuffle_buckets rnd k (b # bs) =
     b\<lparr>tracks_b := fisherYates rnd k (length (tracks_b b) - 1) (tracks_b b)\<rparr>
     # shuffle_buckets rnd (k + (length (tracks_b b) - 1)) bs"

text \<open>The binary max-heap on the number of tracks left in a bucket, in an array.\<close>

definition bsize :: "ArtistBucket \<Rightarrow> nat" where
  "bsize b = length (tracks_b b)"

function sift_up :: "ArtistBucket list \<Rightarrow> nat \<Rightarrow> ArtistBucket list" where
  "sift_up heap index =
     (if index > 0 then
        let parent = (index - 1) div 2 in
        if bsize (heap ! parent) \<ge> bsize (heap ! index) then heap
        else sift_up (swap heap parent index) parent
      else heap)"
  by pat_completeness auto
termination
  by (relation "measure (\<lambda>(heap, index). index)") auto

declare sift_up.simps [simp del]

definition pushHeap :: "ArtistBucket list \<Rightarrow> ArtistBucket \<Rightarrow> ArtistBucket list" where
  "pushHeap heap bucket = sift_up (heap @ [bucket]) (length heap)"

definition largest_of :: "ArtistBucket list \<Rightarrow> nat \<Rightarrow> nat" where
  "largest_of heap index =
     (let left = 2 * index + 1;
          right = 2 * index + 2;
          largest = (if left < length heap \<and> bsize (heap ! left) > bsize (heap ! index)
                     then left else index)
      in if right < length heap \<and> bsize (heap ! right) > bsize (heap ! largest)
         then right else largest)"

lemma largest_of_cases:
  "largest_of heap index = index
   \<or> (index < largest_of heap index \<and> largest_of heap index < length heap)"
  by (auto simp: largest_of_def Let_def)

lemma length_swap [simp]: "length (swap xs i j) = length xs"
  by (simp add: swap_def)

function sift_down :: "ArtistBucket list \<Rightarrow> nat \<Rightarrow> ArtistBucket list" where
  "sift_down heap index =
     (let largest = largest_of heap index in
      if largest = index then heap
      else sift_down (swap heap index largest) largest)"
  by pat_completeness auto
termination
proof (relation "measure (\<lambda>(heap, index). length heap - index)")
  show "wf (measure (\<lambda>(heap, index). length heap - index))" by simp
next
  fix heap :: "ArtistBucket list" and index x
  assume "x = largest_of heap index" "x \<noteq> index"
  with largest_of_cases [of heap index]
  show "((swap heap index x, x), (heap, index)) \<in> measure (\<lambda>(heap, index). length heap - index)"
    by auto
qed

declare sift_down.simps [simp del]

definition popHeap :: "ArtistBucket list \<Rightarrow> ArtistBucket option \<times> ArtistBucket list" where
  "popHeap heap =
     (case heap of
        [] \<Rightarrow> (None, heap)
      | tp # rest \<Rightarrow>
          let lst = last heap;
              heap1 = butlast heap
          in if length heap1 > 0 then (Some tp, sift_down (heap1[0 := lst]) 0)
             else (Some tp, heap1))"


text \<open>What the heap operations do to the buckets held, as a multiset.\<close>

lemma mset_swap_list:
  "i < length xs \<Longrightarrow> j < length xs \<Longrightarrow> mset (swap xs i j) = mset xs"
  by (simp add: swap_def mset_swap)

lemma mset_sift_up:
  "index < length heap \<Longrightarrow> mset (sift_up heap index) = mset heap"
proof (induction heap index rule: sift_up.induct)
  case (1 heap index)
  show ?case
  proof (cases "index > 0 \<and> \<not> bsize (heap ! ((index - 1) div 2)) \<ge> bsize (heap ! index)")
    case True
    then have p: "(index - 1) div 2 < length heap" using "1.prems" by auto
    have "mset (sift_up (swap heap ((index - 1) div 2) index) ((index - 1) div 2))
          = mset (swap heap ((index - 1) div 2) index)"
      using True p by (intro "1.IH") auto
    then show ?thesis
      using True p "1.prems" by (subst sift_up.simps) (simp add: mset_swap_list Let_def)
  next
    case False
    then show ?thesis by (subst sift_up.simps) (auto simp: Let_def)
  qed
qed

lemma mset_sift_down:
  "index < length heap \<Longrightarrow> mset (sift_down heap index) = mset heap"
proof (induction heap index rule: sift_down.induct)
  case (1 heap index)
  show ?case
  proof (cases "largest_of heap index = index")
    case True
    then show ?thesis by (subst sift_down.simps) simp
  next
    case False
    with largest_of_cases [of heap index]
    have l: "largest_of heap index < length heap" by auto
    have "mset (sift_down (swap heap index (largest_of heap index)) (largest_of heap index))
          = mset (swap heap index (largest_of heap index))"
      using False l by (intro "1.IH") auto
    then show ?thesis
      using False l "1.prems" by (subst sift_down.simps) (simp add: mset_swap_list Let_def)
  qed
qed

lemma mset_pushHeap: "mset (pushHeap heap bucket) = add_mset bucket (mset heap)"
  by (simp add: pushHeap_def mset_sift_up)

lemma popHeap_None: "popHeap heap = (None, heap') \<longleftrightarrow> heap = [] \<and> heap' = []"
  by (auto simp: popHeap_def Let_def split: list.splits)

lemma mset_popHeap:
  assumes "popHeap heap = (Some bucket, heap')"
  shows "mset heap = add_mset bucket (mset heap')"
proof (cases heap)
  case Nil
  with assms show ?thesis by (simp add: popHeap_def)
next
  case (Cons tp rest)
  show ?thesis
  proof (cases rest rule: rev_cases)
    case Nil
    with Cons assms show ?thesis by (auto simp: popHeap_def)
  next
    case (snoc ys y)
    with Cons assms have b: "bucket = tp" and h: "heap' = sift_down ((tp # ys)[0 := y]) 0"
      by (auto simp: popHeap_def Let_def butlast_append)
    have "mset heap' = mset (y # ys)"
      unfolding h by (subst mset_sift_down) simp_all
    with Cons snoc b show ?thesis by simp
  qed
qed

text \<open>
  The first half of the loop body of \<open>smartShuffle\<close>: the bucket to take from, with the
  heap left. The largest bucket is popped; if it has the key emitted last, the next largest
  is taken instead, when there is one, and the first is pushed back. \<open>None\<close> when the heap
  is empty (the loop ends).
\<close>

definition pick ::
  "ArtistBucket list \<Rightarrow> string option \<Rightarrow> (ArtistBucket \<times> ArtistBucket list) option" where
  "pick heap lastArtistKey =
     (case popHeap heap of
        (None, heap1) \<Rightarrow> None
      | (Some bucket, heap1) \<Rightarrow>
          if Some (key_b bucket) = lastArtistKey then
            (case popHeap heap1 of
               (None, heap2) \<Rightarrow> Some (bucket, heap1)
             | (Some alternate, heap2) \<Rightarrow> Some (alternate, pushHeap heap2 bucket))
          else Some (bucket, heap1))"

definition weight :: "ArtistBucket list \<Rightarrow> nat" where
  "weight heap = (\<Sum>b\<leftarrow>heap. Suc (bsize b))"

lemma weight_mset: "weight heap = sum_mset (image_mset (\<lambda>b. Suc (bsize b)) (mset heap))"
  by (simp add: weight_def sum_mset_sum_list [symmetric])

lemma weight_pushHeap: "weight (pushHeap heap b) = weight heap + Suc (bsize b)"
  by (simp add: weight_mset mset_pushHeap)

lemma weight_popHeap: "popHeap heap = (Some b, heap') \<Longrightarrow> weight heap = weight heap' + Suc (bsize b)"
  by (simp add: weight_mset mset_popHeap)

lemma weight_pick:
  "pick heap lst = Some (b, heap') \<Longrightarrow> weight heap = weight heap' + Suc (bsize b)"
  by (auto simp: pick_def weight_pushHeap split: prod.splits option.splits if_splits
           dest!: weight_popHeap popHeap_None [THEN iffD1])

text \<open>The loop \<open>while (heap.length > 0)\<close> of \<open>smartShuffle\<close>.\<close>

function drain :: "ArtistBucket list \<Rightarrow> Track list \<Rightarrow> string option \<Rightarrow> Track list" where
  "drain heap shuffled lastArtistKey =
     (case pick heap lastArtistKey of
        None \<Rightarrow> shuffled
      | Some (bucket, heap') \<Rightarrow>
          (case tracks_b bucket of
             [] \<Rightarrow> drain heap' shuffled lastArtistKey
           | nextTrack # rest \<Rightarrow>
               drain (if length rest > 0 then pushHeap heap' (bucket\<lparr>tracks_b := rest\<rparr>)
                      else heap')
                     (shuffled @ [nextTrack]) (Some (key_b bucket))))"
  by pat_completeness auto
termination
proof (relation "measure (\<lambda>(heap, shuffled, lastArtistKey). weight heap)")
  show "wf (measure (\<lambda>(heap, shuffled, lastArtistKey). weight heap))" by simp
next
  fix heap :: "ArtistBucket list" and shuffled :: "Track list" and lastArtistKey x2 x y
  assume "pick heap lastArtistKey = Some x2" "(x, y) = x2" "tracks_b x = []"
  then show "((y, shuffled, lastArtistKey), (heap, shuffled, lastArtistKey))
             \<in> measure (\<lambda>(heap, shuffled, lastArtistKey). weight heap)"
    using weight_pick [of heap lastArtistKey x y] by simp
next
  fix heap :: "ArtistBucket list" and shuffled :: "Track list" and lastArtistKey x2 x y x21 x22
  assume "pick heap lastArtistKey = Some x2" "(x, y) = x2" "tracks_b x = x21 # x22"
  then show "((if 0 < length x22 then pushHeap y (x\<lparr>tracks_b := x22\<rparr>) else y,
               shuffled @ [x21], Some (key_b x)), (heap, shuffled, lastArtistKey))
             \<in> measure (\<lambda>(heap, shuffled, lastArtistKey). weight heap)"
    using weight_pick [of heap lastArtistKey x y] by (simp add: weight_pushHeap bsize_def)
qed

declare drain.simps [simp del]

text \<open>\<open>Queue.smartShuffle\<close>.\<close>

definition smartShuffle :: "Queue \<Rightarrow> Random \<Rightarrow> Queue" where
  "smartShuffle q rnd =
     (if length (tracks q) \<le> 1 then q
      else
        let buckets = shuffle_buckets rnd 0 (artistGroups (tracks q));
            heap = fold (\<lambda>bucket heap. pushHeap heap bucket) buckets []
        in q\<lparr>tracks := drain heap [] None\<rparr>)"

section \<open>JavaScript values\<close>

text \<open>
  A value of TypeScript type \<open>string | null\<close> (or an optional string) is a \<open>string option\<close>.
  JavaScript's truthiness test \<open>if (s)\<close>, \<open>!s\<close> treats \<open>null\<close>, \<open>undefined\<close> and the empty
  string alike as false.
\<close>

definition truthy :: "string option \<Rightarrow> bool" where
  "truthy s = (case s of None \<Rightarrow> False | Some v \<Rightarrow> v \<noteq> [])"

text \<open>Decimal rendering of a number inside a template string.\<close>

definition digit :: "nat \<Rightarrow> char" where
  "digit d = ''0123456789'' ! d"

fun show_nat :: "nat \<Rightarrow> string" where
  "show_nat n = (if n < 10 then [digit n] else show_nat (n div 10) @ [digit (n mod 10)])"

declare show_nat.simps [simp del]



text \<open>Errors thrown by the library: plain \<open>Error\<close>s carrying a message, the tagged
  \<open>RiasError\<close>, and the errors of the runtime (\<open>TypeError\<close>, \<open>SyntaxError\<close>).\<close>

datatype RiasErrorCode =
    NODE_NOT_CONNECTED | NODE_NOT_READY | NO_AVAILABLE_NODES | PLAYER_NOT_FOUND
  | NO_TRACK_PLAYING | INVALID_VOLUME | INVALID_POSITION | INVALID_CHANNEL
  | TRACK_LOAD_FAILED | TIMEOUT | WEBSOCKET_ERROR | REST_ERROR

datatype Err =
    Error string
  | TypeError string
  | SyntaxError string
  | RiasError RiasErrorCode string

fun message :: "Err \<Rightarrow> string" where
  "message (Error m) = m"
| "message (TypeError m) = m"
| "message (SyntaxError m) = m"
| "message (RiasError c m) = m"




section \<open>Node (Node.ts)\<close>

datatype ConnectionState = DISCONNECTED | CONNECTING | CONNECTED | RECONNECTING

fun state_name :: "ConnectionState \<Rightarrow> string" where
  "state_name DISCONNECTED = ''DISCONNECTED''"
| "state_name CONNECTING = ''CONNECTING''"
| "state_name CONNECTED = ''CONNECTED''"
| "state_name RECONNECTING = ''RECONNECTING''"

text \<open>The socket of the \<open>ws\<close> package, as far as the node reads it: its \<open>readyState\<close>.\<close>

datatype ReadyState = WS_CONNECTING | WS_OPEN | WS_CLOSING | WS_CLOSED

record WebSocket =
  readyState :: ReadyState
  ws_url :: string
  ws_headers :: "(string \<times> string) list"

text \<open>A timer handle of \<open>setTimeout\<close>: its delay, and whether it is still pending (neither
  fired nor cleared). \<open>clearTimeout\<close> leaves the handle in place and makes it inactive.\<close>

record Timer =
  delay :: real
  pending :: bool

record PluginInfo =
  plugin_name :: string
  plugin_version :: string

text \<open>\<open>LavalinkInfo\<close>, with the fields the node reads (build metadata is left out).\<close>

record LavalinkInfo =
  semver :: string
  sourceManagers :: "string list"
  filters :: "string list"
  plugins :: "PluginInfo list"

record CpuStats =
  cores :: real
  systemLoad :: real
  lavalinkLoad :: real

record MemoryStats =
  free :: real
  used :: real
  allocated :: real
  reservable :: real

record FrameStats =
  sent :: real
  nulled :: real
  deficit :: real

record NodeStats =
  players :: real
  playingPlayers :: real
  uptime :: real
  memory :: MemoryStats
  cpu :: CpuStats
  frameStats :: "FrameStats option"

text \<open>Audio filters travel through the player untouched; the nested option records are
  kept as their JSON text (\<open>None\<close> is \<open>null\<close>).\<close>

record FilterOptions =
  filter_volume :: "real option"
  equalizer :: "(nat \<times> real) list"
  karaoke :: "string option"
  timescale :: "string option"
  tremolo :: "string option"
  vibrato :: "string option"
  rotation :: "string option"
  distortion :: "string option"
  channelMix :: "string option"
  lowPass :: "string option"

definition EMPTY_FILTERS :: FilterOptions where
  "EMPTY_FILTERS =
     \<lparr>filter_volume = Some 1, equalizer = [], karaoke = None, timescale = None,
      tremolo = None, vibrato = None, rotation = None, distortion = None,
      channelMix = None, lowPass = None\<rparr>"

text \<open>\<open>VoiceState\<close>, the voice part of the payload.\<close>

record VoiceState =
  vs_token :: string
  vs_endpoint :: string
  vs_sessionId :: string

text \<open>\<open>UpdatePlayerPayload\<close>: every field is optional (\<open>None\<close>: absent, not sent);
  \<open>encodedTrack\<close> may also be present and \<open>null\<close> (\<open>Some None\<close>).\<close>

record UpdatePlayerPayload =
  encodedTrack :: "string option option"
  identifier_pl :: "string option"
  position_pl :: "real option"
  endTime :: "real option"
  volume_pl :: "real option"
  paused_pl :: "bool option"
  filters_pl :: "FilterOptions option"
  voice :: "VoiceState option"

definition empty_payload :: UpdatePlayerPayload where
  "empty_payload =
     \<lparr>encodedTrack = None, identifier_pl = None, position_pl = None, endTime = None,
      volume_pl = None, paused_pl = None, filters_pl = None, voice = None\<rparr>"

subsection \<open>The network\<close>

text \<open>
  A request handed to \<open>fetch\<close>. The URL is kept as its path and its query parameters
  (\<open>URLSearchParams.append\<close>), the body as the value that \<open>JSON.stringify\<close> is applied to.
\<close>

datatype Method = GET | POST | PATCH | DELETE

datatype Body = PayloadBody UpdatePlayerPayload | EncodedBody "string list" | RawBody string

record Request =
  url :: string
  query :: "(string \<times> string) list"
  http_method :: Method
  headers :: "(string \<times> string) list"
  body :: "Body option"
  timeout_ms :: nat

text \<open>
  What \<open>response.json()\<close> yields: the code casts the parsed value to the type it expects
  without checking it. \<open>JsonInfo\<close> is a well-formed \<open>LavalinkInfo\<close>, \<open>JsonMessage\<close> an object
  with an optional \<open>message\<close> field, \<open>JsonOther\<close> any other non-null value.
\<close>

datatype Json = JsonInfo LavalinkInfo | JsonMessage "string option" | JsonOther string

record Response =
  status :: nat
  statusText :: string
  contentType :: "string option"
  json :: "Json option"

text \<open>\<open>Response.ok\<close>: the status is in the range 200 to 299.\<close>

definition ok :: "Response \<Rightarrow> bool" where
  "ok r = (200 \<le> status r \<and> status r \<le> 299)"

text \<open>
  The outcome of one \<open>fetch\<close>: a response, the abort by the timeout's \<open>AbortController\<close>, or
  a rejection with another error. The environment decides it: \<open>env k\<close> is the outcome of
  the \<open>k\<close>-th request the node sends (counted from 0).
\<close>

datatype FetchOutcome = Responded Response | Aborted | Rejected Err

type_synonym Env = "nat \<Rightarrow> FetchOutcome"

subsection \<open>Events and node state\<close>

datatype NodeEvent =
    Ev_connect string
  | Ev_disconnect string string int
  | Ev_reconnect string nat real
  | Ev_error string Err
  | Ev_ready "string option" bool
  | Ev_stats NodeStats
  | Ev_event string
  | Ev_playerUpdate string
  | Ev_raw string
  | Ev_infoUpdate string Json
  | Ev_pluginLoaded string PluginInfo

text \<open>A frame sent on the socket.\<close>

datatype Frame = ConfigureResuming string real

text \<open>
  The fields of class \<open>Node\<close>, followed by the node's observable effects: \<open>net\<close> is the list
  of requests handed to \<open>fetch\<close> (all the network input and output of the REST operations),
  \<open>emitted\<close> the events emitted, \<open>frames\<close> the frames sent on the socket, \<open>closes\<close> the calls
  of \<open>ws.close\<close>, \<open>console\<close> the lines logged; each oldest first.
\<close>

record Node =
  node_id :: string
  region :: "string option"
  priority :: int
  host :: string
  port :: nat
  password :: string
  secure :: bool
  resumeKey :: "string option"
  resumeTimeout :: real
  maxReconnectAttempts :: nat
  reconnectDelay :: real
  userAgent :: string
  ws :: "WebSocket option"
  reconnectTimeout :: "Timer option"
  reconnectAttempts :: nat
  sessionId :: "string option"
  clientId :: "string option"
  connectionState :: ConnectionState
  connected :: bool
  stats :: NodeStats
  lavalinkInfo :: "Json option"
  pluginCache :: "(string \<times> PluginInfo) list"
  infoFetchTime :: int
  net :: "Request list"
  emitted :: "NodeEvent list"
  frames :: "Frame list"
  closes :: "(int \<times> string) list"
  console :: "string list"

definition INFO_CACHE_TTL :: int where
  "INFO_CACHE_TTL = 300000"

definition emit :: "Node \<Rightarrow> NodeEvent \<Rightarrow> Node" where
  "emit n e = n\<lparr>emitted := emitted n @ [e]\<rparr>"

definition wsUrl :: "Node \<Rightarrow> string" where
  "wsUrl n = (if secure n then ''wss'' else ''ws'') @ ''://'' @ host n @ '':'' @ show_nat (port n)
             @ ''/v4/websocket''"

definition restUrl :: "Node \<Rightarrow> string" where
  "restUrl n = (if secure n then ''https'' else ''http'') @ ''://'' @ host n @ '':''
               @ show_nat (port n) @ ''/v4''"

definition isReady :: "Node \<Rightarrow> bool" where
  "isReady n = (connected n \<and> sessionId n \<noteq> None)"


definition not_connected_error :: "Node \<Rightarrow> Err" where
  "not_connected_error n =
     Error (''Node '' @ node_id n @ '' is not connected. Current state: ''
            @ state_name (connectionState n))"

text \<open>
  \<open>fetchWithTimeout\<close>: hands the request to \<open>fetch\<close>; an abort becomes a timeout error,
  any other rejection is rethrown.
\<close>

definition fetchWithTimeout :: "Node \<Rightarrow> Env \<Rightarrow> Request \<Rightarrow> (Err + Response) \<times> Node" where
  "fetchWithTimeout n env req =
     (let n' = n\<lparr>net := net n @ [req]\<rparr> in
      case env (length (net n)) of
        Responded r \<Rightarrow> (Inr r, n')
      | Aborted \<Rightarrow>
          (Inl (Error (''Request timeout after '' @ show_nat (timeout_ms req) @ ''ms'')), n')
      | Rejected e \<Rightarrow> (Inl e, n'))"








text \<open>
  \<open>getInfo(forceRefresh)\<close> at time \<open>now\<close> (\<open>Date.now()\<close>). A cached value younger than the
  TTL is returned without a request, unless a refresh is forced. The plugin index is a
  \<open>Map\<close>: \<open>set\<close> replaces the value of a key already present and appends a new key.
\<close>

definition getInfo :: "Node \<Rightarrow> Env \<Rightarrow> int \<Rightarrow> bool \<Rightarrow> (Err + Json) \<times> Node" where
  "getInfo n env now forceRefresh =
     (if \<not> connected n then (Inl (not_connected_error n), n)
      else
        case (if \<not> forceRefresh \<and> now - infoFetchTime n < INFO_CACHE_TTL
              then lavalinkInfo n else None) of
          Some cached \<Rightarrow> (Inr cached, n)
        | None \<Rightarrow>
            let req = \<lparr>url = restUrl n @ ''/info'', query = [], http_method = GET,
                       headers = [(''Authorization'', password n)], body = None,
                       timeout_ms = 5000\<rparr>;
                (res, n1) = fetchWithTimeout n env req
            in case res of
                 Inl e \<Rightarrow> (Inl e, emit n1 (Ev_error (node_id n1) e))
               | Inr response \<Rightarrow>
                   if \<not> ok response then
                     let e = Error (''Failed to get server info: '' @ show_nat (status response)
                                    @ '' '' @ statusText response)
                     in (Inl e, emit n1 (Ev_error (node_id n1) e))
                   else
                     (case json response of
                        None \<Rightarrow>
                          let e = SyntaxError ''Unexpected token in JSON''
                          in (Inl e, emit n1 (Ev_error (node_id n1) e))
                      | Some v \<Rightarrow>
                          let n2 = n1\<lparr>lavalinkInfo := Some v, infoFetchTime := now,
                                      pluginCache := []\<rparr>
                          in (case v of
                                JsonInfo i \<Rightarrow>
                                  (Inr v,
                                   n2\<lparr>pluginCache :=
                                        fold (\<lambda>p c. AList.update (plugin_name p) p c)
                                             (plugins i) []\<rparr>)
                              | _ \<Rightarrow>
                                  let e = TypeError ''info.plugins is not iterable''
                                  in (Inl e, emit n2 (Ev_error (node_id n2) e)))))"




subsection \<open>The socket's handlers\<close>

text \<open>\<open>send(payload)\<close>: refused unless the socket is open.\<close>

definition send :: "Node \<Rightarrow> Frame \<Rightarrow> (Err + unit) \<times> Node" where
  "send n f =
     (if (case ws n of None \<Rightarrow> True | Some w \<Rightarrow> readyState w \<noteq> WS_OPEN) then
        (Inl (Error (''Node '' @ node_id n @ '' is not connected (state: ''
                     @ state_name (connectionState n) @ '')'')), n)
      else (Inr (), n\<lparr>frames := frames n @ [f]\<rparr>))"

text \<open>\<open>discoverPlugins\<close>: a forced \<open>getInfo\<close>, then one \<open>infoUpdate\<close> and one
  \<open>pluginLoaded\<close> per plugin.\<close>

definition discoverPlugins :: "Node \<Rightarrow> Env \<Rightarrow> int \<Rightarrow> (Err + unit) \<times> Node" where
  "discoverPlugins n env now =
     (case getInfo n env now True of
        (Inl e, n1) \<Rightarrow> (Inl (Error (''Failed to discover plugins: '' @ message e)), n1)
      | (Inr v, n1) \<Rightarrow>
          let n2 = emit n1 (Ev_infoUpdate (node_id n1) v);
              ps = (case v of JsonInfo i \<Rightarrow> plugins i | _ \<Rightarrow> [])
          in (Inr (), fold (\<lambda>p m. emit m (Ev_pluginLoaded (node_id m) p)) ps n2))"

text \<open>\<open>onOpen\<close>: the handler of the socket's \<open>open\<close> event.\<close>

definition onOpen :: "Node \<Rightarrow> Env \<Rightarrow> int \<Rightarrow> Node" where
  "onOpen n env now =
     (let n1 = emit (n\<lparr>connected := True, connectionState := CONNECTED,
                       reconnectAttempts := 0\<rparr>) (Ev_connect (node_id n));
          n2 = (case resumeKey n1 of
                  None \<Rightarrow> n1
                | Some key \<Rightarrow>
                    if key \<noteq> [] \<and> \<not> truthy (sessionId n1) then
                      (case send n1 (ConfigureResuming key (resumeTimeout n1)) of
                         (Inl e, m) \<Rightarrow> emit m (Ev_error (node_id m) e)
                       | (Inr u, m) \<Rightarrow> m)
                    else n1)
      in case discoverPlugins n2 env now of
           (Inl e, n3) \<Rightarrow> emit n3 (Ev_error (node_id n3) e)
         | (Inr u, n3) \<Rightarrow> n3)"

text \<open>\<open>onMessage\<close>: an inbound frame, after \<open>JSON.parse\<close>, by its \<open>op\<close>.\<close>

datatype Incoming =
    Msg_ready "string option" bool
  | Msg_stats NodeStats
  | Msg_event string
  | Msg_playerUpdate string
  | Msg_other string
  | Msg_malformed

fun onMessage :: "Node \<Rightarrow> Incoming \<Rightarrow> Node" where
  "onMessage n (Msg_ready sid resumed) = emit (n\<lparr>sessionId := sid\<rparr>) (Ev_ready sid resumed)"
| "onMessage n (Msg_stats s) = emit (n\<lparr>stats := s\<rparr>) (Ev_stats s)"
| "onMessage n (Msg_event p) = emit n (Ev_event p)"
| "onMessage n (Msg_playerUpdate p) = emit n (Ev_playerUpdate p)"
| "onMessage n (Msg_other p) = emit n (Ev_raw p)"
| "onMessage n Msg_malformed =
     emit n (Ev_error (node_id n) (SyntaxError ''Unexpected token in JSON''))"

text \<open>
  \<open>scheduleReconnect\<close>, with \<open>rand\<close> the value of \<open>Math.random()\<close>. The timer that is
  started is recorded with its delay.
\<close>

definition scheduleReconnect :: "Node \<Rightarrow> real \<Rightarrow> Node" where
  "scheduleReconnect n rand =
     (let n1 = (case reconnectTimeout n of
                  None \<Rightarrow> n
                | Some t \<Rightarrow> n\<lparr>reconnectTimeout := Some (t\<lparr>pending := False\<rparr>)\<rparr>)
      in if \<not> truthy (clientId n1) then
           emit n1 (Ev_error (node_id n1) (Error ''Cannot reconnect: clientId not available''))
         else
           let n2 = n1\<lparr>connectionState := RECONNECTING,
                       reconnectAttempts := reconnectAttempts n1 + 1\<rparr>;
               d = min (reconnectDelay n2 * 2 ^ (reconnectAttempts n2 - 1) + rand * 1000) 30000;
               n3 = emit n2 (Ev_reconnect (node_id n2) (reconnectAttempts n2) d)
           in n3\<lparr>reconnectTimeout := Some \<lparr>delay = d, pending = True\<rparr>\<rparr>)"



text \<open>
  \<open>connect(clientId)\<close>. \<open>ctor\<close> is the outcome of \<open>new WebSocket(...)\<close>: \<open>None\<close> when the
  socket is created, the error thrown otherwise. A new socket is still connecting; the
  environment opens it (\<open>socket_opened\<close>) before it calls \<open>onOpen\<close>.
\<close>

definition connect :: "Node \<Rightarrow> string \<Rightarrow> Err option \<Rightarrow> real \<Rightarrow> Node" where
  "connect n cid ctor rand =
     (if connectionState n = CONNECTING then n
      else if (case ws n of None \<Rightarrow> False | Some w \<Rightarrow> readyState w = WS_OPEN) then n
      else
        let n1 = n\<lparr>clientId := Some cid, connectionState := CONNECTING\<rparr>;
            hs = [(''Authorization'', password n1), (''User-Id'', cid),
                  (''Client-Name'', userAgent n1)]
                 @ (if truthy (resumeKey n1)
                    then [(''Session-Id'', (case sessionId n1 of None \<Rightarrow> [] | Some s \<Rightarrow> s))]
                    else [])
        in case ctor of
             None \<Rightarrow>
               n1\<lparr>ws := Some \<lparr>readyState = WS_CONNECTING, ws_url = wsUrl n1, ws_headers = hs\<rparr>\<rparr>
           | Some e \<Rightarrow>
               let n2 = emit (n1\<lparr>connectionState := DISCONNECTED\<rparr>) (Ev_error (node_id n1) e)
               in if reconnectAttempts n2 < maxReconnectAttempts n2
                  then scheduleReconnect n2 rand else n2)"

definition socket_opened :: "Node \<Rightarrow> Node" where
  "socket_opened n =
     (case ws n of None \<Rightarrow> n | Some w \<Rightarrow> n\<lparr>ws := Some (w\<lparr>readyState := WS_OPEN\<rparr>)\<rparr>)"

text \<open>The callback of the reconnect timer, when the timer fires.\<close>

definition reconnectTimerFired :: "Node \<Rightarrow> Err option \<Rightarrow> real \<Rightarrow> Node" where
  "reconnectTimerFired n ctor rand =
     (case reconnectTimeout n of
        None \<Rightarrow> n
      | Some t \<Rightarrow>
          if \<not> pending t then n
          else
            let n1 = n\<lparr>reconnectTimeout := Some (t\<lparr>pending := False\<rparr>)\<rparr>
            in if connectionState n1 = RECONNECTING
               then (case clientId n1 of None \<Rightarrow> n1 | Some cid \<Rightarrow> connect n1 cid ctor rand)
               else n1)"

text \<open>The constructor, with the defaults of the optional fields of \<open>NodeOptions\<close>.\<close>

record NodeOptions =
  o_id :: string
  o_host :: string
  o_port :: nat
  o_password :: string
  o_secure :: "bool option"
  o_region :: "string option"
  o_priority :: "int option"
  o_resumeKey :: "string option"
  o_resumeTimeout :: "real option"
  o_maxReconnectAttempts :: "nat option"
  o_reconnectDelay :: "real option"

definition new_Node :: "NodeOptions \<Rightarrow> string \<Rightarrow> Node" where
  "new_Node options agent =
     \<lparr>node_id = o_id options, region = o_region options,
      priority = (case o_priority options of None \<Rightarrow> 0 | Some p \<Rightarrow> p),
      host = o_host options, port = o_port options, password = o_password options,
      secure = (case o_secure options of None \<Rightarrow> False | Some b \<Rightarrow> b),
      resumeKey = o_resumeKey options,
      resumeTimeout = (case o_resumeTimeout options of None \<Rightarrow> 60 | Some t \<Rightarrow> t),
      maxReconnectAttempts = (case o_maxReconnectAttempts options of None \<Rightarrow> 5 | Some m \<Rightarrow> m),
      reconnectDelay = (case o_reconnectDelay options of None \<Rightarrow> 3000 | Some d \<Rightarrow> d),
      userAgent = agent,
      ws = None, reconnectTimeout = None, reconnectAttempts = 0, sessionId = None,
      clientId = None, connectionState = DISCONNECTED, connected = False,
      stats = \<lparr>players = 0, playingPlayers = 0, uptime = 0,
               memory = \<lparr>free = 0, used = 0, allocated = 0, reservable = 0\<rparr>,
               cpu = \<lparr>cores = 0, systemLoad = 0, lavalinkLoad = 0\<rparr>, frameStats = None\<rparr>,
      lavalinkInfo = None, pluginCache = [], infoFetchTime = 0,
      net = [], emitted = [], frames = [], closes = [], console = []\<rparr>"

subsection \<open>Fixtures\<close>

definition nodeInfo :: LavalinkInfo where
  "nodeInfo = \<lparr>semver = ''4.0.0'', sourceManagers = [''youtube''], filters = [''equalizer''],
               plugins = [\<lparr>plugin_name = ''plugin-a'', plugin_version = ''1.0.0''\<rparr>,
                          \<lparr>plugin_name = ''plugin-b'', plugin_version = ''2.0.0''\<rparr>]\<rparr>"

definition envOK :: Env where
  "envOK k = Responded \<lparr>status = 200, statusText = ''OK'',
                         contentType = Some ''application/json'',
                         json = Some (JsonInfo nodeInfo)\<rparr>"

text \<open>Nodes of the test suite: freshly constructed, after the socket has opened, after the
  \<open>ready\<close> frame, and after the socket dropped with code 1006.\<close>

definition createNodeOptions :: "string option \<Rightarrow> NodeOptions" where
  "createNodeOptions key =
     \<lparr>o_id = ''test-node'', o_host = ''localhost'', o_port = 2333,
      o_password = ''youshallnotpass'', o_secure = Some False, o_region = None,
      o_priority = None, o_resumeKey = key, o_resumeTimeout = None,
      o_maxReconnectAttempts = None, o_reconnectDelay = None\<rparr>"

definition freshNode :: "string option \<Rightarrow> Node" where
  "freshNode key = new_Node (createNodeOptions key) ''Rias''"

definition connectingNode :: "string option \<Rightarrow> Node" where
  "connectingNode key = connect (freshNode key) ''client-id'' None 0"

definition openedNode :: "string option \<Rightarrow> Node" where
  "openedNode key = onOpen (socket_opened (connectingNode key)) envOK 0"

definition readyNode :: "string option \<Rightarrow> Node" where
  "readyNode key = onMessage (openedNode key) (Msg_ready (Some ''session-xyz'') False)"


text \<open>The fields that the handlers of the socket leave alone.\<close>

definition same_link :: "Node \<Rightarrow> Node \<Rightarrow> bool" where
  "same_link n n' =
     (connected n' = connected n \<and> sessionId n' = sessionId n
      \<and> reconnectAttempts n' = reconnectAttempts n
      \<and> connectionState n' = connectionState n \<and> node_id n' = node_id n
      \<and> resumeKey n' = resumeKey n \<and> ws n' = ws n
      \<and> reconnectTimeout n' = reconnectTimeout n \<and> clientId n' = clientId n
      \<and> maxReconnectAttempts n' = maxReconnectAttempts n
      \<and> reconnectDelay n' = reconnectDelay n)"


section \<open>Validation (utils/validation.ts)\<close>

text \<open>JavaScript numbers are real numbers here; \<open>Number.isInteger\<close> tests for a whole value.\<close>

definition isInteger :: "real \<Rightarrow> bool" where
  "isInteger x = (x = of_int \<lfloor>x\<rfloor>)"

definition isValidVolume :: "real \<Rightarrow> bool" where
  "isValidVolume v = (isInteger v \<and> v \<ge> 0 \<and> v \<le> 1000)"

definition isValidPosition :: "real \<Rightarrow> bool" where
  "isValidPosition x = (isInteger x \<and> x \<ge> 0)"

text \<open>The snowflake pattern \<open>/^\d{17,20}$/\<close>.\<close>

definition is_digit :: "char \<Rightarrow> bool" where
  "is_digit c = (c \<in> set ''0123456789'')"

definition isValidGuildId :: "string \<Rightarrow> bool" where
  "isValidGuildId g = (17 \<le> length g \<and> length g \<le> 20 \<and> list_all is_digit g)"

definition isValidChannelId :: "string \<Rightarrow> bool" where
  "isValidChannelId c = (17 \<le> length c \<and> length c \<le> 20 \<and> list_all is_digit c)"

section \<open>Player (Player.ts)\<close>

record VoiceServerUpdate =
  token :: string
  guild_id :: string
  endpoint :: "string option"

record VoiceStateUpdate =
  su_guild_id :: string
  user_id :: string
  session_id :: string
  channel_id :: "string option"

text \<open>The payload of the internal \<open>voiceUpdate\<close> event, emitted on the node.\<close>

record VoiceUpdate =
  vu_guild_id :: string
  vu_channel_id :: "string option"
  self_mute :: bool
  self_deaf :: bool

text \<open>\<open>TrackResolvable = string | Track\<close>.\<close>

datatype TrackResolvable = Encoded string | TrackObject Track

record PlayOptions =
  po_track :: TrackResolvable
  po_position :: "real option"
  po_endTime :: "real option"
  po_volume :: "real option"
  po_paused :: "bool option"
  po_noReplace :: "bool option"

text \<open>
  The player pinned to a node. The node is held by reference in the source; here the
  player keeps the node's id, and an operation that reads the node (\<open>checkNodeReady\<close>) is
  given the node's present state.
\<close>

record Player =
  guildId :: string
  node :: string
  track :: "Track option"
  voiceChannel :: "string option"
  textChannel :: "string option"
  volume :: real
  paused :: bool
  playing :: bool
  position :: real
  connected_p :: bool
  queue :: Queue
  autoplay :: bool
  voiceServer :: "VoiceServerUpdate option"
  voiceState :: "VoiceStateUpdate option"
  destroyed :: bool

definition new_Player :: "string \<Rightarrow> string \<Rightarrow> Player" where
  "new_Player g nid =
     \<lparr>guildId = g, node = nid, track = None, voiceChannel = None, textChannel = None,
      volume = 100, paused = False, playing = False, position = 0, connected_p = False,
      queue = new_Queue, autoplay = True, voiceServer = None, voiceState = None,
      destroyed = False\<rparr>"

text \<open>
  What a player does to the outside, in order: the REST operations it calls on its node,
  the \<open>voiceUpdate\<close> it emits on the node, the events it emits itself, the lines it logs,
  and \<open>removeAllListeners\<close>. The outcome of an awaited call on the node is a parameter of the
  operation: \<open>None\<close> when the promise resolves, the error when it rejects. Listeners are
  outside the player and taken to return normally.
\<close>

datatype PlayerEvent =
    P_queueAdd "Track list" nat
  | P_queueRemove Track int
  | P_queueClear nat
  | P_queueShuffle nat
  | P_queueEnd
  | P_loopSet LoopMode
  | P_error Err
  | P_destroy

datatype Action =
    Call_updatePlayer string UpdatePlayerPayload bool
  | Call_destroyPlayer string
  | Node_emit_voiceUpdate VoiceUpdate
  | Emit PlayerEvent
  | Console_error string
  | RemoveAllListeners

type_synonym Outcome = "Err option"

datatype Ret = R_void | R_bool bool | R_track "Track option"

type_synonym Result = "(Err + Ret) \<times> Player \<times> Action list"

definition destroyed_error :: Err where
  "destroyed_error = RiasError PLAYER_NOT_FOUND ''Player has been destroyed''"

definition node_not_ready_error :: "Node \<Rightarrow> Err" where
  "node_not_ready_error n =
     RiasError NODE_NOT_READY
       (''Node '' @ node_id n
        @ '' is not ready. Please ensure the node is connected and initialized.'')"

text \<open>\<open>checkDestroyed()\<close> and \<open>checkNodeReady()\<close>: the error they throw, if any.\<close>

definition checkDestroyed :: "Player \<Rightarrow> Err option" where
  "checkDestroyed p = (if destroyed p then Some destroyed_error else None)"

definition checkNodeReady :: "Node \<Rightarrow> Err option" where
  "checkNodeReady n = (if \<not> isReady n then Some (node_not_ready_error n) else None)"

text \<open>An awaited \<open>node.updatePlayer\<close> inside \<open>try\<close>: on success the continuation \<open>k\<close> runs, on
  failure the error is emitted and thrown again.\<close>

definition await_update ::
  "Player \<Rightarrow> UpdatePlayerPayload \<Rightarrow> bool \<Rightarrow> Outcome \<Rightarrow> (Player \<Rightarrow> Player) \<Rightarrow> Result" where
  "await_update p payload noReplace outcome k =
     (case outcome of
        None \<Rightarrow> (Inr R_void, k p, [Call_updatePlayer (guildId p) payload noReplace])
      | Some e \<Rightarrow>
          (Inl e, p, [Call_updatePlayer (guildId p) payload noReplace, Emit (P_error e)]))"

text \<open>\<open>connect(channelId, options)\<close>.\<close>

definition connect_p :: "Player \<Rightarrow> string \<Rightarrow> bool option \<Rightarrow> bool option \<Rightarrow> Result" where
  "connect_p p channelId mute deaf =
     (case checkDestroyed p of
        Some e \<Rightarrow> (Inl e, p, [])
      | None \<Rightarrow>
          if \<not> isValidChannelId channelId then
            (Inl (RiasError INVALID_CHANNEL
                    (''Invalid channel ID: '' @ channelId
                     @ ''. Channel IDs must be a 17-20 digit string.'')), p, [])
          else
            (Inr R_void, p\<lparr>voiceChannel := Some channelId\<rparr>,
             [Node_emit_voiceUpdate
                \<lparr>vu_guild_id = guildId p, vu_channel_id = Some channelId,
                 self_mute = (case mute of None \<Rightarrow> False | Some b \<Rightarrow> b),
                 self_deaf = (case deaf of None \<Rightarrow> True | Some b \<Rightarrow> b)\<rparr>]))"

text \<open>\<open>destroy()\<close>: the latch is set first; an error of \<open>node.destroyPlayer\<close> is logged and
  dropped.\<close>

definition destroy :: "Player \<Rightarrow> Outcome \<Rightarrow> Result" where
  "destroy p outcome =
     (if destroyed p then (Inr R_void, p, [])
      else
        let p1 = p\<lparr>destroyed := True\<rparr>;
            call = Call_destroyPlayer (guildId p1)
                   # (case outcome of
                        None \<Rightarrow> []
                      | Some e \<Rightarrow>
                          [Console_error (''[Player '' @ guildId p1
                                          @ ''] Error during destroy:'')])
        in (Inr R_void,
            p1\<lparr>track := None, queue := clear (queue p1), playing := False, paused := False,
               connected_p := False, voiceServer := None, voiceState := None\<rparr>,
            call @ [Emit P_destroy, RemoveAllListeners]))"

text \<open>\<open>disconnect()\<close>.\<close>

definition disconnect_p :: "Player \<Rightarrow> Outcome \<Rightarrow> Result" where
  "disconnect_p p outcome =
     (case checkDestroyed p of
        Some e \<Rightarrow> (Inl e, p, [])
      | None \<Rightarrow>
          let p1 = p\<lparr>voiceChannel := None, connected_p := False\<rparr>;
              vu = Node_emit_voiceUpdate
                     \<lparr>vu_guild_id = guildId p1, vu_channel_id = None,
                      self_mute = False, self_deaf = False\<rparr>
          in case destroy p1 outcome of
               (Inl e, p2, acts) \<Rightarrow> (Inl e, p2, vu # acts @ [Emit (P_error e)])
             | (Inr r, p2, acts) \<Rightarrow> (Inr R_void, p2, vu # acts))"

text \<open>\<open>resolveTrack\<close>.\<close>

fun resolveTrack :: "TrackResolvable \<Rightarrow> string" where
  "resolveTrack (Encoded s) = s"
| "resolveTrack (TrackObject t) = encoded t"

text \<open>\<open>play(options)\<close>. The optional fields are checked in the order position, endTime,
  volume; \<open>volume\<close> and \<open>paused\<close> are stored before the request is sent. (The messages of
  the validation errors leave out the offending number.)\<close>

definition play :: "Player \<Rightarrow> Node \<Rightarrow> PlayOptions \<Rightarrow> Outcome \<Rightarrow> Result" where
  "play p n options outcome =
     (case checkDestroyed p of
        Some e \<Rightarrow> (Inl e, p, [])
      | None \<Rightarrow>
     (case checkNodeReady n of
        Some e \<Rightarrow> (Inl e, p, [])
      | None \<Rightarrow>
          let noReplace = (case po_noReplace options of None \<Rightarrow> False | Some b \<Rightarrow> b);
              payload = empty_payload\<lparr>encodedTrack := Some (Some (resolveTrack (po_track options)))\<rparr>
          in if (case po_position options of None \<Rightarrow> False | Some x \<Rightarrow> \<not> isValidPosition x) then
               (Inl (RiasError INVALID_POSITION ''Invalid position. Must be a non-negative integer.''),
                p, [])
             else if (case po_endTime options of None \<Rightarrow> False | Some x \<Rightarrow> \<not> isValidPosition x) then
               (Inl (RiasError INVALID_POSITION ''Invalid endTime. Must be a non-negative integer.''),
                p, [])
             else if (case po_volume options of None \<Rightarrow> False | Some v \<Rightarrow> \<not> isValidVolume v) then
               (Inl (RiasError INVALID_VOLUME ''Invalid volume. Must be between 0 and 1000.''),
                p, [])
             else
               let payload1 = payload\<lparr>position_pl := po_position options,
                                      endTime := po_endTime options,
                                      volume_pl := po_volume options,
                                      paused_pl := po_paused options\<rparr>;
                   p1 = (case po_volume options of None \<Rightarrow> p | Some v \<Rightarrow> p\<lparr>volume := v\<rparr>);
                   p2 = (case po_paused options of None \<Rightarrow> p1 | Some b \<Rightarrow> p1\<lparr>paused := b\<rparr>)
               in await_update p2 payload1 noReplace outcome (\<lambda>s. s\<lparr>playing := True\<rparr>)))"

text \<open>\<open>stop()\<close>, \<open>pause(state)\<close>, \<open>resume()\<close>, \<open>seek(position)\<close>, \<open>setVolume(volume)\<close>,
  \<open>setFilters(filters)\<close>, \<open>clearFilters()\<close>.\<close>

definition stop :: "Player \<Rightarrow> Node \<Rightarrow> Outcome \<Rightarrow> Result" where
  "stop p n outcome =
     (case checkDestroyed p of
        Some e \<Rightarrow> (Inl e, p, [])
      | None \<Rightarrow>
     (case checkNodeReady n of
        Some e \<Rightarrow> (Inl e, p, [])
      | None \<Rightarrow>
          await_update p (empty_payload\<lparr>encodedTrack := Some None\<rparr>) False outcome
            (\<lambda>s. s\<lparr>track := None, playing := False\<rparr>)))"

definition pause :: "Player \<Rightarrow> Node \<Rightarrow> bool \<Rightarrow> Outcome \<Rightarrow> Result" where
  "pause p n state outcome =
     (case checkDestroyed p of
        Some e \<Rightarrow> (Inl e, p, [])
      | None \<Rightarrow>
     (case checkNodeReady n of
        Some e \<Rightarrow> (Inl e, p, [])
      | None \<Rightarrow>
          await_update p (empty_payload\<lparr>paused_pl := Some state\<rparr>) False outcome
            (\<lambda>s. s\<lparr>paused := state\<rparr>)))"

definition resume :: "Player \<Rightarrow> Node \<Rightarrow> Outcome \<Rightarrow> Result" where
  "resume p n outcome = pause p n False outcome"

definition seek :: "Player \<Rightarrow> Node \<Rightarrow> real \<Rightarrow> Outcome \<Rightarrow> Result" where
  "seek p n pos outcome =
     (case checkDestroyed p of
        Some e \<Rightarrow> (Inl e, p, [])
      | None \<Rightarrow>
     (case checkNodeReady n of
        Some e \<Rightarrow> (Inl e, p, [])
      | None \<Rightarrow>
     (case track p of
        None \<Rightarrow> (Inl (RiasError NO_TRACK_PLAYING ''No track is currently playing''), p, [])
      | Some t \<Rightarrow>
          if \<not> isValidPosition pos then
            (Inl (RiasError INVALID_POSITION ''Invalid position. Must be a non-negative integer.''),
             p, [])
          else if \<not> isSeekable (info t) then
            (Inl (RiasError INVALID_POSITION ''Current track is not seekable''), p, [])
          else
            await_update p (empty_payload\<lparr>position_pl := Some pos\<rparr>) False outcome
              (\<lambda>s. s\<lparr>position := pos\<rparr>))))"

definition setVolume :: "Player \<Rightarrow> Node \<Rightarrow> real \<Rightarrow> Outcome \<Rightarrow> Result" where
  "setVolume p n v outcome =
     (case checkDestroyed p of
        Some e \<Rightarrow> (Inl e, p, [])
      | None \<Rightarrow>
     (case checkNodeReady n of
        Some e \<Rightarrow> (Inl e, p, [])
      | None \<Rightarrow>
          if \<not> isValidVolume v then
            (Inl (RiasError INVALID_VOLUME ''Invalid volume. Must be between 0 and 1000.''),
             p, [])
          else
            await_update p (empty_payload\<lparr>volume_pl := Some v\<rparr>) False outcome
              (\<lambda>s. s\<lparr>volume := v\<rparr>)))"

definition setFilters :: "Player \<Rightarrow> Node \<Rightarrow> FilterOptions \<Rightarrow> Outcome \<Rightarrow> Result" where
  "setFilters p n fs outcome =
     (case checkDestroyed p of
        Some e \<Rightarrow> (Inl e, p, [])
      | None \<Rightarrow>
     (case checkNodeReady n of
        Some e \<Rightarrow> (Inl e, p, [])
      | None \<Rightarrow>
          await_update p (empty_payload\<lparr>filters_pl := Some fs\<rparr>) False outcome (\<lambda>s. s)))"

definition clearFilters :: "Player \<Rightarrow> Node \<Rightarrow> Outcome \<Rightarrow> Result" where
  "clearFilters p n outcome =
     (case checkDestroyed p of
        Some e \<Rightarrow> (Inl e, p, [])
      | None \<Rightarrow>
     (case checkNodeReady n of
        Some e \<Rightarrow> (Inl e, p, [])
      | None \<Rightarrow>
          await_update p (empty_payload\<lparr>filters_pl := Some EMPTY_FILTERS\<rparr>) False outcome
            (\<lambda>s. s)))"


text \<open>The queue operations of the player.\<close>

definition addTrack :: "Player \<Rightarrow> Track \<Rightarrow> Result" where
  "addTrack p t =
     (case checkDestroyed p of
        Some e \<Rightarrow> (Inl e, p, [])
      | None \<Rightarrow>
          let p1 = p\<lparr>queue := add (queue p) t\<rparr>
          in (Inr R_void, p1, [Emit (P_queueAdd [t] (size_q (queue p1)))]))"

definition addTracks :: "Player \<Rightarrow> Track list \<Rightarrow> Result" where
  "addTracks p ts =
     (case checkDestroyed p of
        Some e \<Rightarrow> (Inl e, p, [])
      | None \<Rightarrow>
          let p1 = p\<lparr>queue := addMany (queue p) ts\<rparr>
          in (Inr R_void, p1, [Emit (P_queueAdd ts (size_q (queue p1)))]))"

definition removeTrack :: "Player \<Rightarrow> int \<Rightarrow> Result" where
  "removeTrack p index =
     (case checkDestroyed p of
        Some e \<Rightarrow> (Inl e, p, [])
      | None \<Rightarrow>
          let (removed, q') = remove (queue p) index
          in (Inr (R_track removed), p\<lparr>queue := q'\<rparr>,
              (case removed of None \<Rightarrow> [] | Some t \<Rightarrow> [Emit (P_queueRemove t index)])))"

definition clearQueue :: "Player \<Rightarrow> Result" where
  "clearQueue p =
     (case checkDestroyed p of
        Some e \<Rightarrow> (Inl e, p, [])
      | None \<Rightarrow>
          (Inr R_void, p\<lparr>queue := clear (queue p)\<rparr>, [Emit (P_queueClear (size_q (queue p)))]))"

definition shuffleQueue :: "Player \<Rightarrow> Random \<Rightarrow> Result" where
  "shuffleQueue p rnd =
     (case checkDestroyed p of
        Some e \<Rightarrow> (Inl e, p, [])
      | None \<Rightarrow>
          let p1 = p\<lparr>queue := shuffle_q (queue p) rnd\<rparr>
          in (Inr R_void, p1, [Emit (P_queueShuffle (size_q (queue p1)))]))"

definition smartShuffleQueue :: "Player \<Rightarrow> Random \<Rightarrow> Result" where
  "smartShuffleQueue p rnd =
     (case checkDestroyed p of
        Some e \<Rightarrow> (Inl e, p, [])
      | None \<Rightarrow>
          let p1 = p\<lparr>queue := smartShuffle (queue p) rnd\<rparr>
          in (Inr R_void, p1, [Emit (P_queueShuffle (size_q (queue p1)))]))"

text \<open>\<open>skip()\<close>.\<close>

definition skip :: "Player \<Rightarrow> Node \<Rightarrow> Outcome \<Rightarrow> Result" where
  "skip p n outcome =
     (case checkDestroyed p of
        Some e \<Rightarrow> (Inl e, p, [])
      | None \<Rightarrow>
          if isEmpty (queue p) then
            (case stop p n outcome of
               (Inl e, p1, acts) \<Rightarrow> (Inl e, p1, acts)
             | (Inr r, p1, acts) \<Rightarrow> (Inr (R_bool False), p1, acts @ [Emit P_queueEnd]))
          else
            let (next, q') = poll (queue p);
                p1 = p\<lparr>queue := q'\<rparr>
            in case next of
                 None \<Rightarrow> (Inr (R_bool False), p1, [])
               | Some t \<Rightarrow>
                   (case play p1 n \<lparr>po_track = TrackObject t, po_position = None,
                                    po_endTime = None, po_volume = None, po_paused = None,
                                    po_noReplace = None\<rparr> outcome of
                      (Inl e, p2, acts) \<Rightarrow> (Inl e, p2, acts)
                    | (Inr r, p2, acts) \<Rightarrow> (Inr (R_bool True), p2, acts)))"

text \<open>\<open>setLoop(mode)\<close>: the values of the string enum \<open>LoopMode\<close> are the three strings the
  method also accepts, so the mode is passed on as it is.\<close>

definition setLoop :: "Player \<Rightarrow> LoopMode \<Rightarrow> Result" where
  "setLoop p mode =
     (case checkDestroyed p of
        Some e \<Rightarrow> (Inl e, p, [])
      | None \<Rightarrow> (Inr R_void, p\<lparr>queue := setLoopMode (queue p) mode\<rparr>, [Emit (P_loopSet mode)]))"

subsection \<open>The voice handshake\<close>

text \<open>
  \<open>attemptConnection()\<close>. The payload's \<open>VoiceState\<close> is built from the two pending updates.
  The call of \<open>node.updatePlayer\<close> is the voice REST call; its promise is awaited inside the
  method, whose own promise the callers drop.
\<close>

definition attemptConnection :: "Player \<Rightarrow> Outcome \<Rightarrow> Player \<times> Action list" where
  "attemptConnection p outcome =
     (if destroyed p then (p, [])
      else
        case (voiceServer p, voiceState p) of
          (Some server, Some state) \<Rightarrow>
            if \<not> truthy (endpoint server) then (p, [])
            else
              let v = \<lparr>vs_token = token server,
                       vs_endpoint = (case endpoint server of None \<Rightarrow> [] | Some e \<Rightarrow> e),
                       vs_sessionId = session_id state\<rparr>;
                  call = Call_updatePlayer (guildId p) (empty_payload\<lparr>voice := Some v\<rparr>) False
              in (case outcome of
                    None \<Rightarrow> (p\<lparr>connected_p := True\<rparr>, [call])
                  | Some e \<Rightarrow> (p, [call, Emit (P_error e)]))
        | _ \<Rightarrow> (p, []))"

definition voiceServerUpdate :: "Player \<Rightarrow> VoiceServerUpdate \<Rightarrow> Outcome \<Rightarrow> Player \<times> Action list"
  where
  "voiceServerUpdate p update outcome =
     (if destroyed p then (p, [])
      else attemptConnection (p\<lparr>voiceServer := Some update\<rparr>) outcome)"

definition voiceStateUpdate :: "Player \<Rightarrow> VoiceStateUpdate \<Rightarrow> Outcome \<Rightarrow> Player \<times> Action list"
  where
  "voiceStateUpdate p update outcome =
     (if destroyed p then (p, [])
      else if truthy (channel_id update) then
        attemptConnection (p\<lparr>voiceChannel := channel_id update, voiceState := Some update\<rparr>)
          outcome
      else (p\<lparr>voiceChannel := None, connected_p := False\<rparr>, []))"

text \<open>The two voice inputs, and a run of the player over a sequence of them, each with the
  outcome of the REST call it may issue: the actions of every step, and the final player.\<close>

datatype VoiceInput = ServerUpdate VoiceServerUpdate | StateUpdate VoiceStateUpdate

fun voice_step :: "Player \<Rightarrow> VoiceInput \<times> Outcome \<Rightarrow> Player \<times> Action list" where
  "voice_step p (ServerUpdate u, outcome) = voiceServerUpdate p u outcome"
| "voice_step p (StateUpdate u, outcome) = voiceStateUpdate p u outcome"

fun voice_run :: "Player \<Rightarrow> (VoiceInput \<times> Outcome) list \<Rightarrow> Player" where
  "voice_run p [] = p"
| "voice_run p (i # is) = voice_run (fst (voice_step p i)) is"

text \<open>A voice REST call among the actions of a step.\<close>

fun is_voice_call :: "Action \<Rightarrow> bool" where
  "is_voice_call (Call_updatePlayer g payload nr) = (voice payload \<noteq> None)"
| "is_voice_call a = False"

definition voice_calls :: "Action list \<Rightarrow> Action list" where
  "voice_calls acts = filter is_voice_call acts"

text \<open>Any REST call.\<close>

fun is_rest_call :: "Action \<Rightarrow> bool" where
  "is_rest_call (Call_updatePlayer g payload nr) = True"
| "is_rest_call (Call_destroyPlayer g) = True"
| "is_rest_call a = False"

subsection \<open>The operations of a player\<close>

text \<open>The operations a user calls on a player, other than \<open>destroy\<close>.\<close>

datatype PlayerOp =
    Op_connect string "bool option" "bool option"
  | Op_disconnect
  | Op_play PlayOptions
  | Op_stop
  | Op_pause bool
  | Op_resume
  | Op_seek real
  | Op_setVolume real
  | Op_setFilters FilterOptions
  | Op_clearFilters
  | Op_addTrack Track
  | Op_addTracks "Track list"
  | Op_removeTrack int
  | Op_clearQueue
  | Op_shuffleQueue
  | Op_smartShuffleQueue
  | Op_skip
  | Op_setLoop LoopMode

fun run_op :: "Player \<Rightarrow> Node \<Rightarrow> Random \<Rightarrow> Outcome \<Rightarrow> PlayerOp \<Rightarrow> Result" where
  "run_op p n rnd outcome (Op_connect c mute deaf) = connect_p p c mute deaf"
| "run_op p n rnd outcome Op_disconnect = disconnect_p p outcome"
| "run_op p n rnd outcome (Op_play options) = play p n options outcome"
| "run_op p n rnd outcome Op_stop = stop p n outcome"
| "run_op p n rnd outcome (Op_pause state) = pause p n state outcome"
| "run_op p n rnd outcome Op_resume = resume p n outcome"
| "run_op p n rnd outcome (Op_seek pos) = seek p n pos outcome"
| "run_op p n rnd outcome (Op_setVolume v) = setVolume p n v outcome"
| "run_op p n rnd outcome (Op_setFilters fs) = setFilters p n fs outcome"
| "run_op p n rnd outcome Op_clearFilters = clearFilters p n outcome"
| "run_op p n rnd outcome (Op_addTrack t) = addTrack p t"
| "run_op p n rnd outcome (Op_addTracks ts) = addTracks p ts"
| "run_op p n rnd outcome (Op_removeTrack i) = removeTrack p i"
| "run_op p n rnd outcome Op_clearQueue = clearQueue p"
| "run_op p n rnd outcome Op_shuffleQueue = shuffleQueue p rnd"
| "run_op p n rnd outcome Op_smartShuffleQueue = smartShuffleQueue p rnd"
| "run_op p n rnd outcome Op_skip = skip p n outcome"
| "run_op p n rnd outcome (Op_setLoop mode) = setLoop p mode"

section \<open>Cluster (Rias.ts)\<close>

datatype NodeSelectionStrategy = LoadBalanced | Regional | LeastPlayers | LeastLoad | Priority

datatype RiasEvent =
    R_node NodeEvent
  | R_playerError string Err
  | R_error string Err

text \<open>
  The registries are \<open>Map\<close>s, iterated in insertion order: association lists with distinct
  keys. \<open>sent\<close> lists the payloads (opcode 4) handed to the user's \<open>send\<close> callback.
\<close>

record Rias =
  nodes :: "(string \<times> Node) list"
  players_r :: "(string \<times> Player) list"
  clientId_r :: string
  nodeSelectionStrategy :: NodeSelectionStrategy
  shuttingDown :: bool
  sent :: "(string \<times> VoiceUpdate) list"
  emitted_r :: "RiasEvent list"

text \<open>\<open>nodes.sort(compare)[0]\<close> for a comparator \<open>(a, b) => key(a) - key(b)\<close>: the first
  element of the stable sort by the key, \<open>undefined\<close> for an empty array.\<close>

definition first_by :: "(Node \<Rightarrow> real) \<Rightarrow> Node list \<Rightarrow> Node option" where
  "first_by k ns = (case sort_key k ns of [] \<Rightarrow> None | n # rest \<Rightarrow> Some n)"

definition combined_load :: "Node \<Rightarrow> real" where
  "combined_load a = lavalinkLoad (cpu (stats a)) * (1 + players (stats a) * (1 / 10))"

definition selectLoadBalancedNode :: "Node list \<Rightarrow> Node option" where
  "selectLoadBalancedNode ns = first_by combined_load ns"

definition selectLeastPlayersNode :: "Node list \<Rightarrow> Node option" where
  "selectLeastPlayersNode ns = first_by (\<lambda>a. players (stats a)) ns"

definition selectLeastLoadNode :: "Node list \<Rightarrow> Node option" where
  "selectLeastLoadNode ns = first_by (\<lambda>a. lavalinkLoad (cpu (stats a))) ns"

definition selectPriorityNode :: "Node list \<Rightarrow> Node option" where
  "selectPriorityNode ns = first_by (\<lambda>a. real_of_int (priority a)) ns"

definition selectRegionalNode :: "Node list \<Rightarrow> string option \<Rightarrow> Node option" where
  "selectRegionalNode ns rgn =
     (if \<not> truthy rgn then selectLoadBalancedNode ns
      else
        let regionalNodes = filter (\<lambda>n. region n = rgn) ns
        in if length regionalNodes = 0 then selectLoadBalancedNode ns
           else selectLoadBalancedNode regionalNodes)"

text \<open>The eligible nodes, and \<open>getOptimalNode(region)\<close>.\<close>

definition eligible :: "Rias \<Rightarrow> Node list" where
  "eligible r = filter (\<lambda>n. connected n \<and> isReady n) (map snd (nodes r))"

definition getOptimalNode :: "Rias \<Rightarrow> string option \<Rightarrow> Node option" where
  "getOptimalNode r rgn =
     (let ns = eligible r in
      if length ns = 0 then None
      else if length ns = 1 then Some (ns ! 0)
      else case nodeSelectionStrategy r of
             Regional \<Rightarrow> selectRegionalNode ns rgn
           | LeastPlayers \<Rightarrow> selectLeastPlayersNode ns
           | LeastLoad \<Rightarrow> selectLeastLoadNode ns
           | Priority \<Rightarrow> selectPriorityNode ns
           | LoadBalanced \<Rightarrow> selectLoadBalancedNode ns)"

text \<open>\<open>create(guildId, region)\<close>: the player registered for the guild, or a new one on the
  optimal node.\<close>

definition create :: "Rias \<Rightarrow> string \<Rightarrow> string option \<Rightarrow> (Err + Player) \<times> Rias" where
  "create r g rgn =
     (if shuttingDown r then (Inl (RiasError NODE_NOT_READY ''Rias is shutting down''), r)
      else if \<not> isValidGuildId g then (Inl (RiasError PLAYER_NOT_FOUND ''Invalid guild ID''), r)
      else
        case map_of (players_r r) g of
          Some player \<Rightarrow> (Inr player, r)
        | None \<Rightarrow>
            (case getOptimalNode r rgn of
               None \<Rightarrow>
                 (Inl (RiasError NO_AVAILABLE_NODES
                         ''No available nodes. Please ensure at least one node is connected.''),
                  r)
             | Some n \<Rightarrow>
                 let player = new_Player g (node_id n)
                 in (Inr player, r\<lparr>players_r := AList.update g player (players_r r)\<rparr>)))"

text \<open>
  The listeners that the cluster holds on a player it created (\<open>once("destroy")\<close> removes
  the player from the registry, \<open>on("error")\<close> forwards the error) and, through the node, on
  the player's \<open>voiceUpdate\<close> (the payload goes to \<open>send\<close>).
\<close>

fun deliver :: "string \<Rightarrow> Action \<Rightarrow> Rias \<Rightarrow> Rias" where
  "deliver g (Emit P_destroy) r = r\<lparr>players_r := AList.delete g (players_r r)\<rparr>"
| "deliver g (Emit (P_error e)) r = r\<lparr>emitted_r := emitted_r r @ [R_playerError g e]\<rparr>"
| "deliver g (Node_emit_voiceUpdate v) r = r\<lparr>sent := sent r @ [(vu_guild_id v, v)]\<rparr>"
| "deliver g a r = r"

text \<open>
  A call of \<open>destroy()\<close> on the player that the registry holds for a guild: the player is
  updated in place and its actions reach the cluster's listeners in order.
\<close>

definition player_destroy :: "Rias \<Rightarrow> string \<Rightarrow> Outcome \<Rightarrow> Rias" where
  "player_destroy r g outcome =
     (case map_of (players_r r) g of
        None \<Rightarrow> r
      | Some p \<Rightarrow>
          (case destroy p outcome of
             (res, p', acts) \<Rightarrow>
               fold (deliver g) acts (r\<lparr>players_r := AList.update g p' (players_r r)\<rparr>)))"

text \<open>\<open>Rias.destroy(guildId)\<close>.\<close>

definition destroy_r :: "Rias \<Rightarrow> string \<Rightarrow> Outcome \<Rightarrow> bool \<times> Rias" where
  "destroy_r r g outcome =
     (case map_of (players_r r) g of
        None \<Rightarrow> (False, r)
      | Some p \<Rightarrow>
          let r1 = player_destroy r g outcome
          in (True, r1\<lparr>players_r := AList.delete g (players_r r1)\<rparr>))"

section \<open>Predicates and fixtures of the properties\<close>

text \<open>The handshake is complete when both updates are pending and the endpoint is a
  non-empty string.\<close>

definition handshake_complete :: "Player \<Rightarrow> bool" where
  "handshake_complete p =
     (case (voiceServer p, voiceState p) of
        (Some server, Some state) \<Rightarrow> truthy (endpoint server)
      | _ \<Rightarrow> False)"

text \<open>The voice REST call that a player with both updates pending issues.\<close>

definition voice_call :: "Player \<Rightarrow> VoiceServerUpdate \<Rightarrow> VoiceStateUpdate \<Rightarrow> Action" where
  "voice_call p server state =
     Call_updatePlayer (guildId p)
       (empty_payload\<lparr>voice := Some \<lparr>vs_token = token server,
                                     vs_endpoint = (case endpoint server of None \<Rightarrow> [] | Some e \<Rightarrow> e),
                                     vs_sessionId = session_id state\<rparr>\<rparr>)
       False"

text \<open>Fixtures: a guild, the two updates of the gateway, and a player that has received its
  voice state.\<close>

definition guild0 :: string where
  "guild0 = ''123456789012345678''"

definition server0 :: "string option \<Rightarrow> VoiceServerUpdate" where
  "server0 ep = \<lparr>token = ''tok'', guild_id = guild0, endpoint = ep\<rparr>"

definition state0 :: "string option \<Rightarrow> VoiceStateUpdate" where
  "state0 ch = \<lparr>su_guild_id = guild0, user_id = ''client-id'', session_id = ''voice-session'',
                channel_id = ch\<rparr>"

definition joinedPlayer :: Player where
  "joinedPlayer =
     fst (voiceStateUpdate (new_Player guild0 ''test-node'')
            (state0 (Some ''223456789012345678'')) None)"

text \<open>Fixtures: a cluster with one ready node, and the same after \<open>create\<close> for a guild.\<close>

definition rias1 :: Rias where
  "rias1 = \<lparr>nodes = [(''test-node'', readyNode None)], players_r = [],
            clientId_r = ''client-id'', nodeSelectionStrategy = LoadBalanced,
            shuttingDown = False, sent = [], emitted_r = []\<rparr>"

definition rias_with_player :: Rias where
  "rias_with_player = snd (create rias1 guild0 None)"


text \<open>Fixtures: the three nodes of the selection tests, ready, with the statistics of the
  load-balancing test, and the cluster over them.\<close>

definition clusterNode :: "string \<Rightarrow> string \<Rightarrow> int \<Rightarrow> real \<Rightarrow> real \<Rightarrow> Node" where
  "clusterNode i rg pr pl ld =
     (readyNode None)
       \<lparr>node_id := i, region := Some rg, priority := pr,
        stats := \<lparr>players = pl, playingPlayers = 0, uptime = 0,
                  memory = \<lparr>free = 0, used = 0, allocated = 0, reservable = 0\<rparr>,
                  cpu = \<lparr>cores = 1, systemLoad = 0, lavalinkLoad = ld\<rparr>,
                  frameStats = None\<rparr>\<rparr>"

definition nodeA :: Node where
  "nodeA = clusterNode ''node-a'' ''us'' 2 2 (1/2)"

definition nodeB :: Node where
  "nodeB = clusterNode ''node-b'' ''eu'' 0 5 (1/5)"

definition nodeC :: Node where
  "nodeC = clusterNode ''node-c'' ''us'' 3 1 (7/10)"



subsection \<open>Invariants and fixtures of the smart shuffle\<close>

text \<open>All the tracks in a list of buckets.\<close>

definition bucket_tracks :: "ArtistBucket list \<Rightarrow> Track multiset" where
  "bucket_tracks bs = (\<Sum>b\<leftarrow>bs. mset (tracks_b b))"

definition parent :: "nat \<Rightarrow> nat" where
  "parent i = (i - 1) div 2"

definition heap_inv :: "ArtistBucket list \<Rightarrow> bool" where
  "heap_inv h = (\<forall>i. 0 < i \<and> i < length h \<longrightarrow> bsize (h ! i) \<le> bsize (h ! parent i))"

text \<open>The heap order holds except between index \<open>k\<close> and its parent (while sifting up),
  or except between \<open>k\<close> and its children (while sifting down); across \<open>k\<close> it holds.\<close>

definition heap_except_up :: "ArtistBucket list \<Rightarrow> nat \<Rightarrow> bool" where
  "heap_except_up h k =
     (\<forall>i. 0 < i \<and> i < length h \<longrightarrow>
        (i \<noteq> k \<longrightarrow> bsize (h ! i) \<le> bsize (h ! parent i))
        \<and> (parent i = k \<and> 0 < k \<longrightarrow> bsize (h ! i) \<le> bsize (h ! parent k)))"

definition heap_except_down :: "ArtistBucket list \<Rightarrow> nat \<Rightarrow> bool" where
  "heap_except_down h k =
     (\<forall>i. 0 < i \<and> i < length h \<longrightarrow>
        (parent i \<noteq> k \<longrightarrow> bsize (h ! i) \<le> bsize (h ! parent i))
        \<and> (parent i = k \<and> 0 < k \<longrightarrow> bsize (h ! i) \<le> bsize (h ! parent k)))"

text \<open>The number of tracks left in a heap.\<close>

definition total :: "ArtistBucket list \<Rightarrow> nat" where
  "total h = (\<Sum>b\<leftarrow>h. bsize b)"

text \<open>Every bucket holds tracks of its own key only, and at least one.\<close>

definition buckets_ok :: "ArtistBucket list \<Rightarrow> bool" where
  "buckets_ok h =
     (\<forall>b \<in> set h. tracks_b b \<noteq> [] \<and> (\<forall>t \<in> set (tracks_b b). artistKey t = key_b b))"

text \<open>No bucket is too large for the tracks left: at most half of them, rounded up, and
  rounded down for the bucket of the key emitted last.\<close>

definition bounded :: "ArtistBucket list \<Rightarrow> string option \<Rightarrow> bool" where
  "bounded h lst =
     (\<forall>b \<in> set h. bsize b \<le> (if Some (key_b b) = lst then total h div 2
                                else (total h + 1) div 2))"

text \<open>What the loop of the smart shuffle maintains: the heap order, one bucket per key,
  well-formed buckets, the bound on the bucket sizes, and an output without adjacent equal
  keys whose last key is the one remembered.\<close>

definition loop_inv :: "ArtistBucket list \<Rightarrow> Track list \<Rightarrow> string option \<Rightarrow> bool" where
  "loop_inv h shuffled lst =
     (heap_inv h \<and> distinct (map key_b h) \<and> buckets_ok h \<and> bounded h lst
      \<and> distinct_adj (map artistKey shuffled)
      \<and> (shuffled \<noteq> [] \<longrightarrow> lst = Some (artistKey (last shuffled))))"

text \<open>The groups of a multiset of tracks: one bucket per key that occurs, holding the
  tracks of that key.\<close>

definition grouped :: "ArtistBucket list \<Rightarrow> Track multiset \<Rightarrow> bool" where
  "grouped bs M =
     (distinct (map key_b bs)
      \<and> (\<forall>b \<in> set bs. tracks_b b \<noteq> []
             \<and> mset (tracks_b b) = filter_mset (\<lambda>t. artistKey t = key_b b) M)
      \<and> (\<forall>t \<in># M. artistKey t \<in> key_b ` set bs))"

text \<open>The number of tracks of one artist in a list, by the artist's key.\<close>

definition by_artist :: "Track list \<Rightarrow> string \<Rightarrow> nat" where
  "by_artist ts k = length (filter (\<lambda>t. artistKey t = k) ts)"

text \<open>Fixtures: a queue of one track, and the queue of the test suite's smart shuffle case
  (three tracks of one artist, one track each of two others); the draws 0, 1, 2, ...\<close>

definition oneTrackQueue :: Queue where
  "oneTrackQueue = add new_Queue (mockTrack ''1'' ''Artist A'')"

definition fiveTrackQueue :: Queue where
  "fiveTrackQueue =
     addMany new_Queue
       [mockTrack ''1'' ''Artist A'', mockTrack ''2'' ''Artist A'', mockTrack ''3'' ''Artist A'',
        mockTrack ''4'' ''Artist B'', mockTrack ''5'' ''Artist C'']"

definition draws :: Random where
  "draws k = k"

section \<open>Properties of the queue\<close>

lemma poll_n_track_loop:
  "loopMode q = LoopMode_Track \<Longrightarrow> current q \<noteq> None \<Longrightarrow> poll_n n q = (replicate n (current q), q)"
  by (induction n) (simp_all add: poll_def)

text \<open>
  Claim C3. \<open>Queue.poll\<close>: under loop mode Track with a current track, \<open>poll\<close> returns
  the current track and changes nothing, for any number of consecutive calls. Otherwise it
  sets \<open>previous\<close> to the old current, \<open>current\<close> to the front of the track list (null when
  the list is empty), drops that front from the list, appends the old current to the tail
  when the loop mode is Queue and both the old and the new current are non-null, and returns
  the new current. Hence under loop mode Queue every poll that returns non-null preserves the
  multiset of queued tracks plus current.
\<close>

theorem poll_semantics:
  "(loopMode q = LoopMode_Track \<and> current q \<noteq> None \<longrightarrow>
      poll q = (current q, q) \<and> (\<forall>n. poll_n n q = (replicate n (current q), q)))
 \<and> (\<not> (loopMode q = LoopMode_Track \<and> current q \<noteq> None) \<longrightarrow>
      snd (poll q) =
        q\<lparr>previous := current q,
          current := (case tracks q of [] \<Rightarrow> None | t # _ \<Rightarrow> Some t),
          tracks := tl (tracks q) @
                    (if loopMode q = LoopMode_Queue \<and> current q \<noteq> None \<and> tracks q \<noteq> []
                     then opt_list (current q) else [])\<rparr>
      \<and> fst (poll q) = current (snd (poll q)))
 \<and> (loopMode q = LoopMode_Queue \<and> fst (poll q) \<noteq> None \<longrightarrow> held (snd (poll q)) = held q)"
  by (cases "tracks q"; cases "current q"; cases "loopMode q")
     (simp_all add: poll_def shift_def held_def opt_list_def poll_n_track_loop)

theorem poll_semantics_witness:
  "poll_n 3 \<lparr>tracks = [mockTrack ''2'' ''A''], current = Some (mockTrack ''1'' ''A''),
             previous = None, loopMode = LoopMode_Track\<rparr>
     = (replicate 3 (Some (mockTrack ''1'' ''A'')),
        \<lparr>tracks = [mockTrack ''2'' ''A''], current = Some (mockTrack ''1'' ''A''),
         previous = None, loopMode = LoopMode_Track\<rparr>)
   \<and> poll \<lparr>tracks = [mockTrack ''2'' ''A''], current = Some (mockTrack ''1'' ''A''),
            previous = None, loopMode = LoopMode_Queue\<rparr>
     = (Some (mockTrack ''2'' ''A''),
        \<lparr>tracks = [mockTrack ''1'' ''A''], current = Some (mockTrack ''2'' ''A''),
         previous = Some (mockTrack ''1'' ''A''), loopMode = LoopMode_Queue\<rparr>)
   \<and> held (snd (poll \<lparr>tracks = [mockTrack ''2'' ''A''], current = Some (mockTrack ''1'' ''A''),
            previous = None, loopMode = LoopMode_Queue\<rparr>))
     = {#mockTrack ''1'' ''A'', mockTrack ''2'' ''A''#}"
  using poll_semantics [of "\<lparr>tracks = [mockTrack ''2'' ''A''], current = Some (mockTrack ''1'' ''A''),
             previous = None, loopMode = LoopMode_Track\<rparr>"]
        poll_semantics [of "\<lparr>tracks = [mockTrack ''2'' ''A''], current = Some (mockTrack ''1'' ''A''),
             previous = None, loopMode = LoopMode_Queue\<rparr>"]
  by (simp add: opt_list_def held_def prod_eq_iff)

text \<open>
  Claim C10. \<open>Queue.toggleLoop\<close> maps loop mode None to Queue and every other loop mode to
  None, and returns the new mode; in particular a queue in loop mode Track ends in None (not
  Queue). The track list, \<open>current\<close> and \<open>previous\<close> are left unchanged.
\<close>

theorem toggleLoop_semantics:
  "toggleLoop q =
     (if loopMode q = LoopMode_None then (LoopMode_Queue, q\<lparr>loopMode := LoopMode_Queue\<rparr>)
      else (LoopMode_None, q\<lparr>loopMode := LoopMode_None\<rparr>))
   \<and> toggleLoop (q\<lparr>loopMode := LoopMode_Track\<rparr>) = (LoopMode_None, q\<lparr>loopMode := LoopMode_None\<rparr>)
   \<and> tracks (snd (toggleLoop q)) = tracks q
   \<and> current (snd (toggleLoop q)) = current q
   \<and> previous (snd (toggleLoop q)) = previous q"
  by (simp add: toggleLoop_def)

section \<open>Properties of the smart shuffle\<close>

subsection \<open>The output is a permutation of the input\<close>

lemma bucket_tracks_mset:
  "bucket_tracks bs = sum_mset (image_mset (\<lambda>b. mset (tracks_b b)) (mset bs))"
  by (simp add: bucket_tracks_def sum_mset_sum_list [symmetric])

lemma bucket_tracks_cong: "mset xs = mset ys \<Longrightarrow> bucket_tracks xs = bucket_tracks ys"
  by (simp add: bucket_tracks_mset)

lemma bucket_tracks_simps [simp]:
  "bucket_tracks [] = {#}"
  "bucket_tracks (b # bs) = mset (tracks_b b) + bucket_tracks bs"
  by (simp_all add: bucket_tracks_def)

lemma mset_fisherYates:
  "i < length xs \<or> i = 0 \<Longrightarrow> mset (fisherYates rnd k i xs) = mset xs"
proof (induction i arbitrary: k xs)
  case 0
  then show ?case by simp
next
  case (Suc i)
  then have l: "Suc i < length xs" by simp
  have "rnd k mod (Suc i + 1) < Suc i + 1"
    by (rule mod_less_divisor) simp
  with l have j: "rnd k mod (Suc i + 1) < length xs"
    by linarith
  have "mset (fisherYates rnd (Suc k) i (swap xs (Suc i) (rnd k mod (Suc i + 1))))
        = mset (swap xs (Suc i) (rnd k mod (Suc i + 1)))"
    using l by (intro Suc.IH) simp
  with l j show ?case by (simp add: mset_swap_list)
qed

lemma mset_fisherYates_all [simp]:
  "mset (fisherYates rnd k (length xs - Suc 0) xs) = mset xs"
  by (rule mset_fisherYates) (cases xs; simp)

lemma bucket_tracks_shuffle_buckets:
  "bucket_tracks (shuffle_buckets rnd k bs) = bucket_tracks bs"
  by (induction bs arbitrary: k) simp_all

lemma bucket_tracks_group_push:
  "bucket_tracks (group_push key t bs) = add_mset t (bucket_tracks bs)"
  by (induction bs) simp_all

lemma bucket_tracks_fold_group:
  "bucket_tracks (fold (\<lambda>t g. group_push (artistKey t) t g) ts bs) = mset ts + bucket_tracks bs"
  by (induction ts arbitrary: bs) (simp_all add: bucket_tracks_group_push)

lemma bucket_tracks_artistGroups: "bucket_tracks (artistGroups ts) = mset ts"
  by (simp add: artistGroups_def bucket_tracks_fold_group)

lemma mset_fold_pushHeap:
  "mset (fold (\<lambda>bucket heap. pushHeap heap bucket) bs h) = mset bs + mset h"
  by (induction bs arbitrary: h) (simp_all add: mset_pushHeap)

lemma mset_pick:
  "pick heap lst = Some (b, heap') \<Longrightarrow> mset heap = add_mset b (mset heap')"
  by (auto simp: pick_def mset_pushHeap split: prod.splits option.splits if_splits
           dest!: mset_popHeap popHeap_None [THEN iffD1])

lemma popHeap_Nil [simp]: "popHeap [] = (None, [])"
  by (simp add: popHeap_def)

lemma pick_None: "pick heap lst = None \<longleftrightarrow> heap = []"
  by (auto simp: pick_def popHeap_None split: prod.splits option.splits)

lemma bucket_tracks_pick:
  "pick heap lst = Some (b, heap') \<Longrightarrow> bucket_tracks heap = mset (tracks_b b) + bucket_tracks heap'"
  by (simp add: bucket_tracks_mset mset_pick)

lemma bucket_tracks_pushHeap:
  "bucket_tracks (pushHeap heap b) = mset (tracks_b b) + bucket_tracks heap"
  by (simp add: bucket_tracks_mset mset_pushHeap)

lemma drain_stop: "pick heap lst = None \<Longrightarrow> drain heap shuffled lst = shuffled"
  by (subst drain.simps) simp

lemma drain_skip:
  "pick heap lst = Some (b, heap') \<Longrightarrow> tracks_b b = [] \<Longrightarrow>
   drain heap shuffled lst = drain heap' shuffled lst"
  by (subst drain.simps) simp

lemma drain_emit:
  "pick heap lst = Some (b, heap') \<Longrightarrow> tracks_b b = t # rest \<Longrightarrow>
   drain heap shuffled lst
     = drain (if length rest > 0 then pushHeap heap' (b\<lparr>tracks_b := rest\<rparr>) else heap')
         (shuffled @ [t]) (Some (key_b b))"
  by (subst drain.simps) simp

lemma mset_drain:
  "mset (drain heap shuffled lst) = mset shuffled + bucket_tracks heap"
proof (induction heap shuffled lst rule: drain.induct)
  case (1 heap shuffled lst)
  show ?case
  proof (cases "pick heap lst")
    case None
    then have "heap = []" by (simp add: pick_None)
    with None show ?thesis by (simp add: drain_stop)
  next
    case (Some x)
    obtain b heap' where x: "x = (b, heap')" by (cases x)
    note p = Some [unfolded x]
    note bt = bucket_tracks_pick [OF p]
    show ?thesis
    proof (cases "tracks_b b")
      case Nil
      have "mset (drain heap' shuffled lst) = mset shuffled + bucket_tracks heap'"
        using Some x Nil by (intro "1.IH"(1)) auto
      with Nil bt show ?thesis by (simp add: drain_skip [OF p Nil])
    next
      case (Cons t rest)
      let ?h = "if length rest > 0 then pushHeap heap' (b\<lparr>tracks_b := rest\<rparr>) else heap'"
      have "mset (drain ?h (shuffled @ [t]) (Some (key_b b)))
            = mset (shuffled @ [t]) + bucket_tracks ?h"
        using Some x Cons by (intro "1.IH"(2)) auto
      moreover have "bucket_tracks ?h = mset rest + bucket_tracks heap'"
        by (simp add: bucket_tracks_pushHeap)
      ultimately show ?thesis
        using Cons bt by (simp add: drain_emit [OF p Cons])
    qed
  qed
qed

lemma smartShuffle_perm: "mset (tracks (smartShuffle q rnd)) = mset (tracks q)"
proof -
  have "bucket_tracks (fold (\<lambda>bucket heap. pushHeap heap bucket)
                         (shuffle_buckets rnd 0 (artistGroups (tracks q))) [])
        = mset (tracks q)"
    using bucket_tracks_cong [of "fold (\<lambda>bucket heap. pushHeap heap bucket)
                         (shuffle_buckets rnd 0 (artistGroups (tracks q))) []"
                         "shuffle_buckets rnd 0 (artistGroups (tracks q))"]
    by (simp add: mset_fold_pushHeap bucket_tracks_shuffle_buckets bucket_tracks_artistGroups)
  then show ?thesis
    by (simp add: smartShuffle_def Let_def mset_drain)
qed

subsection \<open>The heap keeps its largest bucket on top\<close>

lemma parent_less: "0 < i \<Longrightarrow> parent i < i"
  by (simp add: parent_def)

lemma nth_swap:
  "i < length xs \<Longrightarrow> j < length xs \<Longrightarrow>
   swap xs i j ! k = (if k = j then xs ! i else if k = i then xs ! j else xs ! k)"
  by (simp add: swap_def nth_list_update)

lemma sift_up_step:
  assumes k: "0 < k" "k < length h"
    and ex: "heap_except_up h k"
    and gt: "\<not> bsize (h ! k) \<le> bsize (h ! parent k)"
  shows "heap_except_up (swap h (parent k) k) (parent k)"
  unfolding heap_except_up_def
proof (intro allI impI)
  fix i assume i: "0 < i \<and> i < length (swap h (parent k) k)"
  let ?p = "parent k"
  let ?h' = "swap h ?p k"
  have pk: "?p < k" using k(1) by (rule parent_less)
  have pl: "?p < length h" using pk k(2) by simp
  have il: "i < length h" "0 < i" using i by simp_all
  have pi: "parent i < i" using il(2) by (rule parent_less)
  have nth: "?h' ! j = (if j = k then h ! ?p else if j = ?p then h ! k else h ! j)" for j
    using pl k(2) by (simp add: nth_swap)
  from ex il have ord: "i \<noteq> k \<Longrightarrow> bsize (h ! i) \<le> bsize (h ! parent i)"
    and across: "parent i = k \<Longrightarrow> bsize (h ! i) \<le> bsize (h ! ?p)"
    using k(1) by (auto simp: heap_except_up_def)
  have first: "bsize (?h' ! i) \<le> bsize (?h' ! parent i)" if "i \<noteq> ?p"
  proof (cases "i = k")
    case True
    then show ?thesis using gt pk by (simp add: nth)
  next
    case False
    note ik = this
    show ?thesis
    proof (cases "parent i = k")
      case True
      then show ?thesis using across ik that pk pi by (simp add: nth)
    next
      case False
      show ?thesis
      proof (cases "parent i = ?p")
        case True
        then show ?thesis using ord [OF ik] gt ik that by (simp add: nth)
      next
        case False
        then show ?thesis using ord [OF ik] ik that \<open>parent i \<noteq> k\<close> by (simp add: nth)
      qed
    qed
  qed
  have second: "bsize (?h' ! i) \<le> bsize (?h' ! parent ?p)" if "parent i = ?p" "0 < ?p"
  proof -
    have pp: "parent ?p < ?p" using that(2) by (rule parent_less)
    from ex pl that(2) pk have up: "bsize (h ! ?p) \<le> bsize (h ! parent ?p)"
      by (auto simp: heap_except_up_def)
    have npp: "?h' ! parent ?p = h ! parent ?p" using pp pk by (simp add: nth)
    show ?thesis
    proof (cases "i = k")
      case True
      then show ?thesis using up pk pp by (simp add: nth npp)
    next
      case False
      moreover have "i \<noteq> ?p" using that(1) pi by auto
      ultimately show ?thesis using ord [OF False] up that(1) pp pk by (simp add: nth)
    qed
  qed
  from first second
  show "(i \<noteq> ?p \<longrightarrow> bsize (?h' ! i) \<le> bsize (?h' ! parent i))
        \<and> (parent i = ?p \<and> 0 < ?p \<longrightarrow> bsize (?h' ! i) \<le> bsize (?h' ! parent ?p))"
    by blast
qed

lemma heap_except_up_done:
  assumes "heap_except_up h k" "k = 0 \<or> bsize (h ! k) \<le> bsize (h ! parent k)"
  shows "heap_inv h"
  using assms unfolding heap_except_up_def heap_inv_def by (metis not_gr_zero)

lemma sift_up_inv:
  "k < length h \<Longrightarrow> heap_except_up h k \<Longrightarrow> heap_inv (sift_up h k)"
proof (induction h k rule: sift_up.induct)
  case (1 heap index)
  show ?case
  proof (cases "index > 0 \<and> \<not> bsize (heap ! index) \<le> bsize (heap ! parent index)")
    case True
    have h0: "0 < index" using True by simp
    have h1: "parent index = (index - 1) div 2" by (simp add: parent_def)
    have h2: "\<not> bsize (heap ! index) \<le> bsize (heap ! parent index)" using True by simp
    have h3: "parent index < length (swap heap (parent index) index)"
      using h0 "1.prems"(1) parent_less [of index] by simp
    have h4: "heap_except_up (swap heap (parent index) index) (parent index)"
      using sift_up_step [of index heap] True "1.prems" by simp
    have "heap_inv (sift_up (swap heap (parent index) index) (parent index))"
      by (rule "1.IH" [OF h0 h1 h2 h3 h4])
    then show ?thesis
      using True by (subst sift_up.simps) (simp add: Let_def parent_def)
  next
    case False
    then have "sift_up heap index = heap"
      by (subst sift_up.simps) (auto simp: Let_def parent_def)
    moreover have "heap_inv heap"
      using False "1.prems"(2) by (intro heap_except_up_done [of heap index]) auto
    ultimately show ?thesis by simp
  qed
qed

lemma pushHeap_inv:
  assumes "heap_inv h"
  shows "heap_inv (pushHeap h b)"
  unfolding pushHeap_def
proof (rule sift_up_inv)
  show "length h < length (h @ [b])" by simp
  show "heap_except_up (h @ [b]) (length h)"
    unfolding heap_except_up_def
  proof (intro allI impI conjI)
    fix i assume i: "0 < i \<and> i < length (h @ [b])" and "i \<noteq> length h"
    then have "i < length h" by simp
    moreover have "parent i < length h" using i parent_less [of i] by simp
    ultimately show "bsize ((h @ [b]) ! i) \<le> bsize ((h @ [b]) ! parent i)"
      using assms i by (simp add: nth_append heap_inv_def)
  next
    fix i assume i: "0 < i \<and> i < length (h @ [b])" and "parent i = length h \<and> 0 < length h"
    then have False using parent_less [of i] by simp
    then show "bsize ((h @ [b]) ! i) \<le> bsize ((h @ [b]) ! parent (length h))" ..
  qed
qed

lemma parent_child: "0 < i \<Longrightarrow> parent i = k \<longleftrightarrow> i = 2 * k + 1 \<or> i = 2 * k + 2"
  by (auto simp: parent_def)

lemma largest_of_child:
  "largest_of h k = k \<or> (parent (largest_of h k) = k \<and> 0 < largest_of h k
                          \<and> largest_of h k < length h
                          \<and> bsize (h ! k) < bsize (h ! largest_of h k))"
  by (auto simp: largest_of_def Let_def parent_def)

lemma largest_of_max:
  "0 < i \<Longrightarrow> i < length h \<Longrightarrow> parent i = k \<Longrightarrow> bsize (h ! i) \<le> bsize (h ! largest_of h k)"
  by (auto simp: parent_child largest_of_def Let_def)

lemma heap_except_down_done:
  assumes "heap_except_down h k" "largest_of h k = k"
  shows "heap_inv h"
  unfolding heap_inv_def
proof (intro allI impI)
  fix i assume i: "0 < i \<and> i < length h"
  show "bsize (h ! i) \<le> bsize (h ! parent i)"
  proof (cases "parent i = k")
    case True
    with largest_of_max [of i h k] i assms(2) show ?thesis by simp
  next
    case False
    with assms(1) i show ?thesis by (auto simp: heap_except_down_def)
  qed
qed

lemma sift_down_step:
  assumes k: "k < length h"
    and ex: "heap_except_down h k"
    and ne: "largest_of h k \<noteq> k"
  shows "heap_except_down (swap h k (largest_of h k)) (largest_of h k)"
  unfolding heap_except_down_def
proof (intro allI impI)
  let ?l = "largest_of h k"
  let ?h' = "swap h k ?l"
  fix i assume i: "0 < i \<and> i < length ?h'"
  from largest_of_child [of h k] ne
  have lk: "parent ?l = k" and l0: "0 < ?l" and ll: "?l < length h"
    and gt: "bsize (h ! k) < bsize (h ! ?l)" by auto
  have kl: "k < ?l" using lk l0 parent_less [of ?l] by simp
  have il: "i < length h" "0 < i" using i by simp_all
  have pi: "parent i < i" using il(2) by (rule parent_less)
  have nth: "?h' ! j = (if j = ?l then h ! k else if j = k then h ! ?l else h ! j)" for j
    using k ll by (simp add: nth_swap)
  from ex il have ord: "parent i \<noteq> k \<Longrightarrow> bsize (h ! i) \<le> bsize (h ! parent i)"
    and across: "parent i = k \<Longrightarrow> 0 < k \<Longrightarrow> bsize (h ! i) \<le> bsize (h ! parent k)"
    by (auto simp: heap_except_down_def)
  have first: "bsize (?h' ! i) \<le> bsize (?h' ! parent i)" if np: "parent i \<noteq> ?l"
  proof (cases "parent i = k")
    case True
    then have ik: "i \<noteq> k" using pi by auto
    have "bsize (h ! i) \<le> bsize (h ! ?l)"
      using largest_of_max [OF il(2) il(1) True] .
    then show ?thesis using True ik gt kl by (auto simp: nth)
  next
    case False
    show ?thesis
    proof (cases "i = k")
      case True
      then have k0: "0 < k" using il(2) by simp
      have pk: "parent k < k" using k0 by (rule parent_less)
      from ex ll l0 lk k0 have "bsize (h ! ?l) \<le> bsize (h ! parent k)"
        by (auto simp: heap_except_down_def)
      then show ?thesis using True pk kl by (simp add: nth)
    next
      case False
      note ik = this
      have il': "i \<noteq> ?l" using \<open>parent i \<noteq> k\<close> lk by auto
      show ?thesis using ord [OF \<open>parent i \<noteq> k\<close>] ik il' np \<open>parent i \<noteq> k\<close> by (simp add: nth)
    qed
  qed
  have second: "bsize (?h' ! i) \<le> bsize (?h' ! parent ?l)" if "parent i = ?l"
  proof -
    have "i \<noteq> ?l" "i \<noteq> k" using that pi kl by auto
    moreover have "bsize (h ! i) \<le> bsize (h ! ?l)"
      using ex il that kl by (auto simp: heap_except_down_def)
    ultimately show ?thesis using lk kl by (simp add: nth)
  qed
  from first second
  show "(parent i \<noteq> ?l \<longrightarrow> bsize (?h' ! i) \<le> bsize (?h' ! parent i))
        \<and> (parent i = ?l \<and> 0 < ?l \<longrightarrow> bsize (?h' ! i) \<le> bsize (?h' ! parent ?l))"
    by blast
qed

lemma sift_down_inv:
  "k < length h \<Longrightarrow> heap_except_down h k \<Longrightarrow> heap_inv (sift_down h k)"
proof (induction h k rule: sift_down.induct)
  case (1 heap index)
  show ?case
  proof (cases "largest_of heap index = index")
    case True
    then have "sift_down heap index = heap"
      by (subst sift_down.simps) (simp add: Let_def)
    with heap_except_down_done [OF "1.prems"(2) True] show ?thesis by simp
  next
    case False
    from largest_of_child [of heap index] False
    have h3: "largest_of heap index < length (swap heap index (largest_of heap index))"
      by auto
    have h4: "heap_except_down (swap heap index (largest_of heap index)) (largest_of heap index)"
      using sift_down_step [OF "1.prems"(1) "1.prems"(2) False] .
    have "heap_inv (sift_down (swap heap index (largest_of heap index)) (largest_of heap index))"
      by (rule "1.IH" [OF refl False h3 h4])
    then show ?thesis
      using False by (subst sift_down.simps) (simp add: Let_def)
  qed
qed

lemma heap_top_max:
  assumes "heap_inv h"
  shows "i < length h \<Longrightarrow> bsize (h ! i) \<le> bsize (h ! 0)"
proof (induction i rule: less_induct)
  case (less i)
  show ?case
  proof (cases "i = 0")
    case True
    then show ?thesis by simp
  next
    case False
    then have p: "parent i < i" by (simp add: parent_less)
    have "bsize (h ! i) \<le> bsize (h ! parent i)"
      using assms False less.prems by (simp add: heap_inv_def)
    also have "\<dots> \<le> bsize (h ! 0)"
      using p less.prems by (intro less.IH) auto
    finally show ?thesis .
  qed
qed

lemma popHeap_inv:
  assumes inv: "heap_inv h" and pop: "popHeap h = (Some b, h')"
  shows "heap_inv h'" and "\<forall>x \<in> set h. bsize x \<le> bsize b"
proof -
  obtain tp rest where h: "h = tp # rest"
    using pop by (cases h) (auto simp: popHeap_def)
  have b: "b = tp" using pop h by (auto simp: popHeap_def Let_def split: if_splits)
  show "\<forall>x \<in> set h. bsize x \<le> bsize b"
  proof
    fix x assume "x \<in> set h"
    then obtain i where "i < length h" "h ! i = x" by (auto simp: in_set_conv_nth)
    with heap_top_max [OF inv, of i] h b show "bsize x \<le> bsize b" by auto
  qed
  show "heap_inv h'"
  proof (cases rest rule: rev_cases)
    case Nil
    with pop h have "h' = []" by (auto simp: popHeap_def)
    then show ?thesis by (simp add: heap_inv_def)
  next
    case (snoc ys y)
    with pop h have h': "h' = sift_down (y # ys) 0"
      by (auto simp: popHeap_def Let_def butlast_append)
    have "heap_except_down (y # ys) 0"
      unfolding heap_except_down_def
    proof (intro allI impI conjI)
      fix i assume i: "0 < i \<and> i < length (y # ys)" and np: "parent i \<noteq> 0"
      then have p: "0 < parent i" "parent i < i" by (simp_all add: parent_less)
      have "bsize (h ! i) \<le> bsize (h ! parent i)"
        using inv i h snoc by (simp add: heap_inv_def)
      moreover have "h ! i = (y # ys) ! i" "h ! parent i = (y # ys) ! parent i"
        using i p h snoc by (auto simp: nth_append nth_Cons split: nat.splits)
      ultimately show "bsize ((y # ys) ! i) \<le> bsize ((y # ys) ! parent i)" by simp
    next
      fix i assume "parent i = 0 \<and> (0::nat) < 0"
      then show "bsize ((y # ys) ! i) \<le> bsize ((y # ys) ! parent 0)" by simp
    qed
    then show ?thesis unfolding h' by (intro sift_down_inv) simp_all
  qed
qed

subsection \<open>No two adjacent tracks of one artist\<close>

lemma total_mset: "total h = sum_mset (image_mset bsize (mset h))"
  by (simp add: total_def sum_mset_sum_list [symmetric])

lemma total_split: "mset h = add_mset b (mset h') \<Longrightarrow> total h = bsize b + total h'"
  by (simp add: total_mset)

lemma set_split: "mset h = add_mset b (mset h') \<Longrightarrow> set h = insert b (set h')"
  by (metis set_mset_add_mset_insert set_mset_mset)

lemma keys_split:
  assumes "mset h = add_mset b (mset h')"
  shows "distinct (map key_b h) \<longleftrightarrow> key_b b \<notin> key_b ` set h' \<and> distinct (map key_b h')"
proof -
  have "image_mset key_b (mset h) = image_mset key_b (mset (b # h'))"
    using assms by simp
  then have "mset (map key_b h) = mset (map key_b (b # h'))"
    by (simp only: mset_map)
  then have "distinct (map key_b h) \<longleftrightarrow> distinct (map key_b (b # h'))"
    by (rule mset_eq_imp_distinct_iff)
  then show ?thesis by simp
qed

lemma member_le_total: "x \<in> set h \<Longrightarrow> bsize x \<le> total h"
  unfolding total_def by (induction h) auto

lemma pick_spec:
  assumes inv: "heap_inv h" and keys: "distinct (map key_b h)" and ok: "buckets_ok h"
    and bnd: "bounded h lst" and ne: "h \<noteq> []"
  shows "\<exists>b h'. pick h lst = Some (b, h') \<and> mset h = add_mset b (mset h') \<and> heap_inv h'
               \<and> Some (key_b b) \<noteq> lst
               \<and> (\<forall>x \<in> set h. Some (key_b x) \<noteq> lst \<longrightarrow> bsize x \<le> bsize b)"
proof -
  obtain tp h1 where pop: "popHeap h = (Some tp, h1)"
    using ne by (cases "popHeap h"; cases "fst (popHeap h)") (auto simp: popHeap_None)
  note m1 = mset_popHeap [OF pop]
  note i1 = popHeap_inv [OF inv pop]
  have tp_in: "tp \<in> set h" using set_split [OF m1] by simp
  show ?thesis
  proof (cases "Some (key_b tp) = lst")
    case False
    then have "pick h lst = Some (tp, h1)" using pop by (simp add: pick_def)
    with m1 i1 False show ?thesis by auto
  next
    case True
    have "bsize tp \<le> total h div 2" using bnd tp_in True by (auto simp: bounded_def)
    moreover have "0 < bsize tp" using ok tp_in by (auto simp: buckets_ok_def bsize_def)
    moreover have "total h = bsize tp + total h1" using m1 by (rule total_split)
    ultimately have "0 < total h1" by linarith
    then have ne1: "h1 \<noteq> []" by (auto simp: total_def)
    obtain alt h2 where pop2: "popHeap h1 = (Some alt, h2)"
      using ne1 by (cases "popHeap h1"; cases "fst (popHeap h1)") (auto simp: popHeap_None)
    note m2 = mset_popHeap [OF pop2]
    note i2 = popHeap_inv [OF i1(1) pop2]
    have alt_in: "alt \<in> set h1" using set_split [OF m2] by simp
    have k1: "key_b tp \<notin> key_b ` set h1" using keys keys_split [OF m1] by simp
    then have alt_key: "key_b alt \<noteq> key_b tp" using alt_in by (metis imageI)
    have p: "pick h lst = Some (alt, pushHeap h2 tp)"
      using pop pop2 True by (simp add: pick_def)
    have "mset h = add_mset alt (mset (pushHeap h2 tp))"
      using m1 m2 by (simp add: mset_pushHeap)
    moreover have "heap_inv (pushHeap h2 tp)" using i2(1) by (rule pushHeap_inv)
    moreover have "Some (key_b alt) \<noteq> lst" using alt_key True by auto
    moreover have "\<forall>x \<in> set h. Some (key_b x) \<noteq> lst \<longrightarrow> bsize x \<le> bsize alt"
    proof (intro ballI impI)
      fix x assume "x \<in> set h" "Some (key_b x) \<noteq> lst"
      then have "x \<in> set h1" using set_split [OF m1] True by auto
      then show "bsize x \<le> bsize alt" using i2(2) by simp
    qed
    ultimately show ?thesis using p by blast
  qed
qed

lemma set_pushHeap: "set (pushHeap h b) = insert b (set h)"
  by (metis mset_pushHeap set_mset_add_mset_insert set_mset_mset)

lemma loop_inv_step:
  assumes li: "loop_inv h shuffled lst"
    and p: "pick h lst = Some (b, h')"
    and tr: "tracks_b b = t # rest"
  shows "loop_inv (if length rest > 0 then pushHeap h' (b\<lparr>tracks_b := rest\<rparr>) else h')
           (shuffled @ [t]) (Some (key_b b))"
proof -
  let ?b' = "b\<lparr>tracks_b := rest\<rparr>"
  let ?h'' = "if length rest > 0 then pushHeap h' ?b' else h'"
  from li have inv: "heap_inv h" and keys: "distinct (map key_b h)" and ok: "buckets_ok h"
    and bnd: "bounded h lst" and adj: "distinct_adj (map artistKey shuffled)"
    and lastk: "shuffled \<noteq> [] \<longrightarrow> lst = Some (artistKey (last shuffled))"
    by (simp_all add: loop_inv_def)
  have ne: "h \<noteq> []" using p pick_None [of h lst] by auto
  from pick_spec [OF inv keys ok bnd ne] p
  have m: "mset h = add_mset b (mset h')" and inv': "heap_inv h'"
    and fresh: "Some (key_b b) \<noteq> lst"
    and mx: "\<forall>x \<in> set h. Some (key_b x) \<noteq> lst \<longrightarrow> bsize x \<le> bsize b"
    by auto
  have sh: "set h = insert b (set h')" using m by (rule set_split)
  have tot: "total h = bsize b + total h'" using m by (rule total_split)
  have kb: "key_b b \<notin> key_b ` set h'" and k': "distinct (map key_b h')"
    using keys keys_split [OF m] by simp_all
  have bs: "bsize b = Suc (length rest)" using tr by (simp add: bsize_def)
  have bkey: "artistKey t = key_b b" using ok sh tr by (auto simp: buckets_ok_def)
  have m'': "mset ?h'' = (if length rest > 0 then add_mset ?b' (mset h') else mset h')"
    by (simp add: mset_pushHeap)
  have s'': "set ?h'' = (if length rest > 0 then insert ?b' (set h') else set h')"
    using m'' by (metis set_mset_add_mset_insert set_mset_mset)
  have tot'': "total ?h'' = length rest + total h'"
    by (simp add: total_mset mset_pushHeap bsize_def)
  have 1: "heap_inv ?h''" using inv' by (simp add: pushHeap_inv)
  have 2: "distinct (map key_b ?h'')"
  proof (cases "length rest > 0")
    case True
    have "mset (pushHeap h' ?b') = add_mset ?b' (mset h')" by (simp add: mset_pushHeap)
    from keys_split [OF this] kb k' True show ?thesis by simp
  next
    case False
    with k' show ?thesis by simp
  qed
  have 3: "buckets_ok ?h''"
    using ok sh tr by (auto simp: buckets_ok_def set_pushHeap)
  have 4: "bounded ?h'' (Some (key_b b))"
    unfolding bounded_def
  proof
    fix x assume x: "x \<in> set ?h''"
    show "bsize x \<le> (if Some (key_b x) = Some (key_b b) then total ?h'' div 2
                       else (total ?h'' + 1) div 2)"
    proof (cases "x \<in> set h'")
      case True
      then have nk: "key_b x \<noteq> key_b b" using kb by (metis imageI)
      have xh: "x \<in> set h" using True sh by simp
      have "2 * bsize x \<le> total h"
      proof (cases "Some (key_b x) = lst")
        case True
        with bnd xh have "bsize x \<le> total h div 2" by (auto simp: bounded_def)
        then show ?thesis by linarith
      next
        case False
        with mx xh have "bsize x \<le> bsize b" by simp
        moreover have "bsize x \<le> total h'" using True by (rule member_le_total)
        ultimately show ?thesis using tot by linarith
      qed
      then show ?thesis using nk tot tot'' bs by simp
    next
      case False
      with x s'' have xb: "x = ?b'" and r: "length rest > 0"
        by (auto split: if_splits)
      have "bsize b \<le> (total h + 1) div 2"
        using bnd sh fresh by (auto simp: bounded_def)
      then have "2 * length rest \<le> length rest + total h'"
        using tot bs by linarith
      then show ?thesis using xb tot'' by (simp add: bsize_def)
    qed
  qed
  have 5: "distinct_adj (map artistKey (shuffled @ [t]))"
    using adj lastk fresh bkey
    by (cases "shuffled = []") (auto simp: distinct_adj_append_iff last_map)
  have 6: "Some (key_b b) = Some (artistKey (last (shuffled @ [t])))"
    using bkey by simp
  from 1 2 3 4 5 6 show ?thesis unfolding loop_inv_def by simp
qed

lemma drain_adj:
  "loop_inv h shuffled lst \<Longrightarrow> distinct_adj (map artistKey (drain h shuffled lst))"
proof (induction h shuffled lst rule: drain.induct)
  case (1 heap shuffled lst)
  show ?case
  proof (cases "pick heap lst")
    case None
    with "1.prems" show ?thesis by (simp add: drain_stop loop_inv_def)
  next
    case (Some x)
    obtain b heap' where x: "x = (b, heap')" by (cases x)
    note p = Some [unfolded x]
    from "1.prems" have inv: "heap_inv heap" and keys: "distinct (map key_b heap)"
      and ok: "buckets_ok heap" and bnd: "bounded heap lst"
      by (simp_all add: loop_inv_def)
    have ne: "heap \<noteq> []" using p pick_None [of heap lst] by auto
    have "b \<in> set heap"
      using pick_spec [OF inv keys ok bnd ne] p set_split by fastforce
    then obtain t rest where tr: "tracks_b b = t # rest"
      using ok by (cases "tracks_b b") (auto simp: buckets_ok_def)
    let ?h = "if length rest > 0 then pushHeap heap' (b\<lparr>tracks_b := rest\<rparr>) else heap'"
    have "distinct_adj (map artistKey (drain ?h (shuffled @ [t]) (Some (key_b b))))"
      using Some x tr loop_inv_step [OF "1.prems" p tr] by (intro "1.IH"(2)) auto
    then show ?thesis by (simp add: drain_emit [OF p tr])
  qed
qed

subsection \<open>The buckets the loop starts from\<close>

lemma fold_pushHeap_inv:
  "heap_inv h \<Longrightarrow> heap_inv (fold (\<lambda>bucket heap. pushHeap heap bucket) bs h)"
  by (induction bs arbitrary: h) (simp_all add: pushHeap_inv)

text \<open>With one bucket per key, \<open>group_push\<close> extends the bucket of the key, or appends a new
  bucket.\<close>

lemma group_push_closed:
  "distinct (map key_b bs) \<Longrightarrow>
   group_push k t bs =
     (if k \<in> key_b ` set bs
      then map (\<lambda>b. if key_b b = k then b\<lparr>tracks_b := tracks_b b @ [t]\<rparr> else b) bs
      else bs @ [\<lparr>key_b = k, tracks_b = [t]\<rparr>])"
proof (induction bs)
  case Nil
  then show ?case by simp
next
  case (Cons b bs)
  show ?case
  proof (cases "key_b b = k")
    case True
    from Cons.prems have "key_b b \<notin> key_b ` set bs" by simp
    with True have "\<forall>x \<in> set bs. key_b x \<noteq> k" by blast
    then have "map (\<lambda>b. if key_b b = k then b\<lparr>tracks_b := tracks_b b @ [t]\<rparr> else b) bs = bs"
      by (intro map_idI) auto
    with True show ?thesis by simp
  next
    case False
    with Cons show ?thesis by auto
  qed
qed

lemma grouped_push:
  assumes "grouped bs M"
  shows "grouped (group_push (artistKey t) t bs) (add_mset t M)"
proof -
  let ?k = "artistKey t"
  from assms have d: "distinct (map key_b bs)"
    and g: "\<forall>b \<in> set bs. tracks_b b \<noteq> []
               \<and> mset (tracks_b b) = filter_mset (\<lambda>t. artistKey t = key_b b) M"
    and c: "\<forall>t \<in># M. artistKey t \<in> key_b ` set bs"
    by (simp_all add: grouped_def)
  show ?thesis
  proof (cases "?k \<in> key_b ` set bs")
    case True
    let ?f = "\<lambda>b. if key_b b = ?k then b\<lparr>tracks_b := tracks_b b @ [t]\<rparr> else b"
    have gp: "group_push ?k t bs = map ?f bs"
      using group_push_closed [OF d] True by simp
    have kf: "key_b (?f b) = key_b b" for b by simp
    have mk: "map key_b (map ?f bs) = map key_b bs" by (induction bs) simp_all
    with d have 1: "distinct (map key_b (map ?f bs))" by (simp only:)
    have 2: "\<forall>b \<in> set (map ?f bs). tracks_b b \<noteq> []
               \<and> mset (tracks_b b) = filter_mset (\<lambda>u. artistKey u = key_b b) (add_mset t M)"
      using g by auto
    have 3: "\<forall>u \<in># add_mset t M. artistKey u \<in> key_b ` set (map ?f bs)"
    proof
      fix u assume "u \<in># add_mset t M"
      then have "artistKey u \<in> key_b ` set bs" using c True by auto
      also have "key_b ` set bs = key_b ` set (map ?f bs)"
        using mk by (metis list.set_map)
      finally show "artistKey u \<in> key_b ` set (map ?f bs)" .
    qed
    from 1 2 3 show ?thesis unfolding grouped_def gp by blast
  next
    case False
    have gp: "group_push ?k t bs = bs @ [\<lparr>key_b = ?k, tracks_b = [t]\<rparr>]"
      using group_push_closed [OF d] False by simp
    have none: "filter_mset (\<lambda>u. artistKey u = ?k) M = {#}"
      using c False by (simp only: filter_mset_eq_mempty_iff) metis
    have 1: "distinct (map key_b (bs @ [\<lparr>key_b = ?k, tracks_b = [t]\<rparr>]))"
      using d False by simp
    have 2: "\<forall>b \<in> set (bs @ [\<lparr>key_b = ?k, tracks_b = [t]\<rparr>]). tracks_b b \<noteq> []
               \<and> mset (tracks_b b) = filter_mset (\<lambda>u. artistKey u = key_b b) (add_mset t M)"
      using g False none by auto
    have 3: "\<forall>u \<in># add_mset t M. artistKey u \<in> key_b ` set (bs @ [\<lparr>key_b = ?k, tracks_b = [t]\<rparr>])"
      using c by auto
    from 1 2 3 show ?thesis unfolding grouped_def gp by blast
  qed
qed

lemma grouped_fold:
  "grouped bs M \<Longrightarrow>
   grouped (fold (\<lambda>t g. group_push (artistKey t) t g) ts bs) (mset ts + M)"
proof (induction ts arbitrary: bs M)
  case Nil
  then show ?case by simp
next
  case (Cons a ts)
  from Cons.IH [OF grouped_push [OF Cons.prems, of a]] show ?case by simp
qed

lemma grouped_artistGroups: "grouped (artistGroups ts) (mset ts)"
  using grouped_fold [of "[]" "{#}" ts] by (simp add: artistGroups_def grouped_def)

text \<open>Shuffling inside the buckets keeps each bucket's key and tracks.\<close>

lemma shuffle_buckets_all2:
  "list_all2 (\<lambda>b b'. key_b b' = key_b b \<and> mset (tracks_b b') = mset (tracks_b b))
     bs (shuffle_buckets rnd k bs)"
  by (induction bs arbitrary: k) simp_all

lemma grouped_shuffle_buckets:
  assumes "grouped bs M"
  shows "grouped (shuffle_buckets rnd k bs) M"
proof -
  let ?bs' = "shuffle_buckets rnd k bs"
  note a = shuffle_buckets_all2 [of bs rnd k]
  have keys: "map key_b ?bs' = map key_b bs"
    using a by (induction rule: list_all2_induct) auto
  have each: "\<forall>b' \<in> set ?bs'. \<exists>b \<in> set bs. key_b b' = key_b b
                \<and> mset (tracks_b b') = mset (tracks_b b)"
    using a by (induction rule: list_all2_induct) auto
  have ks: "key_b ` set ?bs' = key_b ` set bs"
    using keys by (metis list.set_map)
  from assms have d: "distinct (map key_b bs)"
    and g: "\<forall>b \<in> set bs. tracks_b b \<noteq> []
               \<and> mset (tracks_b b) = filter_mset (\<lambda>t. artistKey t = key_b b) M"
    and c: "\<forall>t \<in># M. artistKey t \<in> key_b ` set bs"
    by (simp_all add: grouped_def)
  have 2: "\<forall>b' \<in> set ?bs'. tracks_b b' \<noteq> []
             \<and> mset (tracks_b b') = filter_mset (\<lambda>t. artistKey t = key_b b') M"
  proof
    fix b' assume "b' \<in> set ?bs'"
    with each obtain b where b: "b \<in> set bs" "key_b b' = key_b b"
      "mset (tracks_b b') = mset (tracks_b b)" by blast
    with g have "tracks_b b \<noteq> []"
      "mset (tracks_b b) = filter_mset (\<lambda>t. artistKey t = key_b b) M" by auto
    with b show "tracks_b b' \<noteq> []
             \<and> mset (tracks_b b') = filter_mset (\<lambda>t. artistKey t = key_b b') M"
      by (metis mset_zero_iff)
  qed
  show ?thesis unfolding grouped_def using d c 2 keys ks by simp
qed

lemma grouped_mset_cong:
  assumes "grouped bs M" "mset h = mset bs"
  shows "grouped h M"
proof -
  have "mset (map key_b h) = mset (map key_b bs)"
    using assms(2) by simp
  then have "distinct (map key_b h) = distinct (map key_b bs)"
    by (rule mset_eq_imp_distinct_iff)
  moreover have "set h = set bs" using assms(2) by (rule mset_eq_setD)
  ultimately show ?thesis using assms(1) by (simp add: grouped_def)
qed

lemma total_size: "total h = size (bucket_tracks h)"
  by (induction h) (simp_all add: total_def bsize_def)

lemma initial_loop_inv:
  assumes few: "\<forall>k. length (filter (\<lambda>t. artistKey t = k) ts) \<le> (length ts + 1) div 2"
  shows "loop_inv (fold (\<lambda>bucket heap. pushHeap heap bucket)
                     (shuffle_buckets rnd 0 (artistGroups ts)) []) [] None"
proof -
  let ?bs = "shuffle_buckets rnd 0 (artistGroups ts)"
  let ?h = "fold (\<lambda>bucket heap. pushHeap heap bucket) ?bs []"
  have m: "mset ?h = mset ?bs" by (simp add: mset_fold_pushHeap)
  have g: "grouped ?h (mset ts)"
    using grouped_shuffle_buckets [OF grouped_artistGroups] m by (rule grouped_mset_cong)
  have 1: "heap_inv ?h" by (rule fold_pushHeap_inv) (simp add: heap_inv_def)
  have 2: "distinct (map key_b ?h)" using g by (simp add: grouped_def)
  have 3: "buckets_ok ?h"
    unfolding buckets_ok_def
  proof (intro ballI conjI)
    fix b assume b: "b \<in> set ?h"
    with g show "tracks_b b \<noteq> []" by (simp add: grouped_def)
    fix t assume "t \<in> set (tracks_b b)"
    then have "t \<in># mset (tracks_b b)" by simp
    also have "mset (tracks_b b) = filter_mset (\<lambda>t. artistKey t = key_b b) (mset ts)"
      using g b by (simp add: grouped_def)
    finally show "artistKey t = key_b b" by simp
  qed
  have tot: "total ?h = length ts"
    using bucket_tracks_cong [OF m]
    by (simp add: total_size bucket_tracks_shuffle_buckets bucket_tracks_artistGroups)
  have 4: "bounded ?h None"
    unfolding bounded_def
  proof
    fix b assume b: "b \<in> set ?h"
    have "bsize b = size (mset (tracks_b b))" by (simp add: bsize_def)
    also have "mset (tracks_b b) = filter_mset (\<lambda>t. artistKey t = key_b b) (mset ts)"
      using g b by (simp add: grouped_def)
    also have "size \<dots> = length (filter (\<lambda>t. artistKey t = key_b b) ts)"
      by (simp add: mset_filter [symmetric] del: mset_filter)
    also have "\<dots> \<le> (length ts + 1) div 2" using few by blast
    finally show "bsize b \<le> (if Some (key_b b) = None then total ?h div 2
                               else (total ?h + 1) div 2)"
      using tot by simp
  qed
  from 1 2 3 4 show ?thesis by (simp add: loop_inv_def)
qed

text \<open>
  Claim C4. For every queue and every sequence of draws, the track list after
  \<open>smartShuffle\<close> is a permutation of the track list before; a queue of one track is left as
  it is; and when no artist key (the author, trimmed and lower-cased) occurs more than
  \<open>\<lceil>n/2\<rceil>\<close> times among the \<open>n\<close> tracks, that is at most \<open>(n + 1) div 2\<close> times, no two adjacent
  tracks of the result have the same artist key.
\<close>

theorem smartShuffle_spec:
  "mset (tracks (smartShuffle q rnd)) = mset (tracks q)
   \<and> (length (tracks q) = 1 \<longrightarrow> smartShuffle q rnd = q)
   \<and> ((\<forall>k. by_artist (tracks q) k \<le> (length (tracks q) + 1) div 2) \<longrightarrow>
        distinct_adj (map artistKey (tracks (smartShuffle q rnd))))"
proof (intro conjI impI)
  show "mset (tracks (smartShuffle q rnd)) = mset (tracks q)" by (rule smartShuffle_perm)
  show "smartShuffle q rnd = q" if "length (tracks q) = 1"
    using that by (simp add: smartShuffle_def)
  assume few: "\<forall>k. by_artist (tracks q) k \<le> (length (tracks q) + 1) div 2"
  show "distinct_adj (map artistKey (tracks (smartShuffle q rnd)))"
  proof (cases "length (tracks q) \<le> 1")
    case True
    then have "tracks q = [] \<or> (\<exists>t. tracks q = [t])"
      by (cases "tracks q") auto
    with True show ?thesis by (auto simp: smartShuffle_def)
  next
    case False
    from few have "\<forall>k. length (filter (\<lambda>t. artistKey t = k) (tracks q))
                      \<le> (length (tracks q) + 1) div 2"
      by (simp add: by_artist_def)
    from drain_adj [OF initial_loop_inv [OF this, of rnd]] False
    show ?thesis by (simp add: smartShuffle_def Let_def)
  qed
qed

lemma artistKey_mockTrack:
  "artistKey (mockTrack i ''Artist A'') = ''artist a''"
  "artistKey (mockTrack i ''Artist B'') = ''artist b''"
  "artistKey (mockTrack i ''Artist C'') = ''artist c''"
  by (simp_all add: artistKey_def mockTrack_def trim_def toLowerCase_def lower_char_def
      is_space_def)

theorem smartShuffle_spec_witness:
  "length (tracks oneTrackQueue) = 1
   \<and> smartShuffle oneTrackQueue draws = oneTrackQueue
   \<and> length (tracks fiveTrackQueue) = 5
   \<and> (\<forall>k. by_artist (tracks fiveTrackQueue) k \<le> 3)
   \<and> mset (tracks (smartShuffle fiveTrackQueue draws)) = mset (tracks fiveTrackQueue)
   \<and> distinct_adj (map artistKey (tracks (smartShuffle fiveTrackQueue draws)))"
proof -
  have one: "length (tracks oneTrackQueue) = 1"
    by (simp add: oneTrackQueue_def add_def new_Queue_def)
  have five: "length (tracks fiveTrackQueue) = 5"
    by (simp add: fiveTrackQueue_def addMany_def new_Queue_def)
  have few: "\<forall>k. by_artist (tracks fiveTrackQueue) k \<le> (length (tracks fiveTrackQueue) + 1) div 2"
    unfolding five
    by (auto simp add: by_artist_def fiveTrackQueue_def addMany_def new_Queue_def
        artistKey_mockTrack)
  from smartShuffle_spec [of oneTrackQueue draws] one
  have a: "smartShuffle oneTrackQueue draws = oneTrackQueue" by blast
  from smartShuffle_spec [of fiveTrackQueue draws] few
  have b: "mset (tracks (smartShuffle fiveTrackQueue draws)) = mset (tracks fiveTrackQueue)"
    and c: "distinct_adj (map artistKey (tracks (smartShuffle fiveTrackQueue draws)))"
    by blast+
  from few have "\<forall>k. by_artist (tracks fiveTrackQueue) k \<le> 3" unfolding five by simp
  with one five a b c show ?thesis by blast
qed

section \<open>Properties of the node\<close>


lemma net_emit [simp]: "net (emit n e) = net n"
  by (simp add: emit_def)






lemma same_link_refl [simp]: "same_link n n"
  by (simp add: same_link_def)

lemma same_link_trans: "same_link a b \<Longrightarrow> same_link b c \<Longrightarrow> same_link a c"
  by (simp add: same_link_def)

lemma same_link_emit [simp]: "same_link n (emit m e) = same_link n m"
  by (simp add: same_link_def emit_def)

lemma same_link_fetch:
  "fetchWithTimeout n env req = (r, n') \<Longrightarrow> same_link n n'"
  by (auto simp: fetchWithTimeout_def Let_def same_link_def split: FetchOutcome.splits)

lemma same_link_getInfo:
  "getInfo n env now fr = (r, n') \<Longrightarrow> same_link n n'"
  by (auto simp: getInfo_def Let_def same_link_def emit_def
           dest!: same_link_fetch
           split: if_splits option.splits prod.splits sum.splits Json.splits)

lemma same_link_fold_emit:
  "same_link n (fold (\<lambda>p m. emit m (g m p)) ps m0) = same_link n m0"
  by (induction ps arbitrary: m0) simp_all

lemma same_link_discoverPlugins:
  "discoverPlugins n env now = (r, n') \<Longrightarrow> same_link n n'"
  by (auto simp: discoverPlugins_def Let_def same_link_fold_emit
           dest!: same_link_getInfo split: prod.splits sum.splits)

lemma same_link_send:
  "send n f = (r, n') \<Longrightarrow> same_link n n'"
  by (auto simp: send_def same_link_def split: if_splits)

lemma onOpen_link:
  "same_link (n\<lparr>connected := True, connectionState := CONNECTED, reconnectAttempts := 0\<rparr>)
             (onOpen n env now)"
proof -
  let ?n0 = "n\<lparr>connected := True, connectionState := CONNECTED, reconnectAttempts := 0\<rparr>"
  define n1 where "n1 = emit ?n0 (Ev_connect (node_id n))"
  define n2 where "n2 = (case resumeKey n1 of
                  None \<Rightarrow> n1
                | Some key \<Rightarrow>
                    if key \<noteq> [] \<and> \<not> truthy (sessionId n1) then
                      (case send n1 (ConfigureResuming key (resumeTimeout n1)) of
                         (Inl e, m) \<Rightarrow> emit m (Ev_error (node_id m) e)
                       | (Inr u, m) \<Rightarrow> m)
                    else n1)"
  have 1: "same_link ?n0 n1" by (simp add: n1_def)
  have 2: "same_link n1 n2"
    by (auto simp: n2_def dest!: same_link_send split: option.splits prod.splits sum.splits)
  have 3: "same_link n2 (case discoverPlugins n2 env now of
           (Inl e, n3) \<Rightarrow> emit n3 (Ev_error (node_id n3) e)
         | (Inr u, n3) \<Rightarrow> n3)"
    by (auto dest!: same_link_discoverPlugins split: prod.splits sum.splits)
  have "onOpen n env now = (case discoverPlugins n2 env now of
           (Inl e, n3) \<Rightarrow> emit n3 (Ev_error (node_id n3) e)
         | (Inr u, n3) \<Rightarrow> n3)"
    unfolding onOpen_def n2_def n1_def Let_def by (rule refl)
  with 1 2 3 show ?thesis by (metis same_link_trans)
qed


lemma connectingNode_fields:
  "sessionId (connectingNode key) = None"
  "resumeKey (connectingNode key) = key"
  "clientId (connectingNode key) = Some ''client-id''"
  "reconnectAttempts (connectingNode key) = 0"
  "maxReconnectAttempts (connectingNode key) = 5"
  "reconnectDelay (connectingNode key) = 3000"
  "reconnectTimeout (connectingNode key) = None"
  "(ws (connectingNode key) = None) = False"
  by (simp_all add: connectingNode_def connect_def freshNode_def new_Node_def
        createNodeOptions_def Let_def)

lemma socket_opened_fields:
  "sessionId (socket_opened n) = sessionId n"
  "resumeKey (socket_opened n) = resumeKey n"
  "clientId (socket_opened n) = clientId n"
  "reconnectAttempts (socket_opened n) = reconnectAttempts n"
  "maxReconnectAttempts (socket_opened n) = maxReconnectAttempts n"
  "reconnectDelay (socket_opened n) = reconnectDelay n"
  "reconnectTimeout (socket_opened n) = reconnectTimeout n"
  "(ws (socket_opened n) = None) = (ws n = None)"
  by (simp_all add: socket_opened_def split: option.splits)

lemma openedNode_fields:
  "connected (openedNode key)"
  "sessionId (openedNode key) = None"
  "resumeKey (openedNode key) = key"
  "clientId (openedNode key) = Some ''client-id''"
  "connectionState (openedNode key) = CONNECTED"
  "reconnectAttempts (openedNode key) = 0"
  "reconnectTimeout (openedNode key) = None"
  "(ws (openedNode key) = None) = False"
  "maxReconnectAttempts (openedNode key) = 5"
  "reconnectDelay (openedNode key) = 3000"
  using onOpen_link [of "socket_opened (connectingNode key)" envOK 0]
  by (simp_all add: openedNode_def same_link_def connectingNode_fields socket_opened_fields)

lemma readyNode_fields:
  "connected (readyNode key)"
  "sessionId (readyNode key) = Some ''session-xyz''"
  "resumeKey (readyNode key) = key"
  "clientId (readyNode key) = Some ''client-id''"
  "connectionState (readyNode key) = CONNECTED"
  "reconnectAttempts (readyNode key) = 0"
  "reconnectTimeout (readyNode key) = None"
  "(ws (readyNode key) = None) = False"
  "maxReconnectAttempts (readyNode key) = 5"
  "reconnectDelay (readyNode key) = 3000"
  by (simp_all add: readyNode_def emit_def openedNode_fields)












lemma onOpen_resets_attempts: "reconnectAttempts (onOpen n env now) = 0"
  using onOpen_link [of n env now] by (simp add: same_link_def)

lemma scheduleReconnect_timer:
  assumes "truthy (clientId n)"
  shows "reconnectAttempts (scheduleReconnect n rand) = Suc (reconnectAttempts n)"
    and "connectionState (scheduleReconnect n rand) = RECONNECTING"
    and "reconnectTimeout (scheduleReconnect n rand)
          = Some \<lparr>delay = min (reconnectDelay n * 2 ^ reconnectAttempts n + rand * 1000) 30000,
                  pending = True\<rparr>"
    and "emitted (scheduleReconnect n rand)
          = emitted n @ [Ev_reconnect (node_id n) (Suc (reconnectAttempts n))
                           (min (reconnectDelay n * 2 ^ reconnectAttempts n + rand * 1000) 30000)]"
  using assms
  by (simp_all add: scheduleReconnect_def Let_def emit_def split: option.splits)

text \<open>
  Claim C7. When a reconnect is scheduled (a client id is known), the attempt counter goes
  up by one to \<open>k \<ge> 1\<close> and the timer's delay is
  \<open>min (reconnectDelay * 2 ^ (k - 1) + r) 30000\<close> milliseconds with \<open>r = Math.random() * 1000\<close>
  in \<open>[0, 1000)\<close>; with base 1000 the delay lies between \<open>2 ^ (k - 1) * 1000\<close> and
  \<open>2 ^ (k - 1) * 1000 + 1000\<close>, both clamped at 30000. Every \<open>open\<close> of the socket resets the
  attempt counter to 0. (Numbers are real numbers here; that \<open>Math.random\<close> is uniform is
  outside the model, its range is a hypothesis.)
\<close>

theorem reconnect_backoff:
  "(truthy (clientId n) \<and> 0 \<le> rand \<and> rand < 1 \<longrightarrow>
      reconnectAttempts (scheduleReconnect n rand) = reconnectAttempts n + 1
      \<and> 1 \<le> reconnectAttempts (scheduleReconnect n rand)
      \<and> reconnectTimeout (scheduleReconnect n rand)
          = Some \<lparr>delay = min (reconnectDelay n
                                 * 2 ^ (reconnectAttempts (scheduleReconnect n rand) - 1)
                               + rand * 1000) 30000,
                  pending = True\<rparr>
      \<and> 0 \<le> rand * 1000 \<and> rand * 1000 < 1000
      \<and> (reconnectDelay n = 1000 \<longrightarrow>
           (\<forall>t. reconnectTimeout (scheduleReconnect n rand) = Some t \<longrightarrow>
              min (2 ^ (reconnectAttempts (scheduleReconnect n rand) - 1) * 1000) 30000 \<le> delay t
              \<and> delay t
                 \<le> min (2 ^ (reconnectAttempts (scheduleReconnect n rand) - 1) * 1000 + 1000)
                        30000)))
   \<and> reconnectAttempts (onOpen n env now) = 0"
  by (auto simp: scheduleReconnect_timer onOpen_resets_attempts)

theorem reconnect_backoff_witness:
  "reconnectAttempts (scheduleReconnect ((readyNode None)\<lparr>reconnectDelay := 1000, reconnectAttempts := 2\<rparr>) (1/2)) = 3
   \<and> reconnectTimeout (scheduleReconnect ((readyNode None)\<lparr>reconnectDelay := 1000, reconnectAttempts := 2\<rparr>) (1/2))
       = Some \<lparr>delay = 4500, pending = True\<rparr>
   \<and> reconnectAttempts (onOpen (scheduleReconnect ((readyNode None)\<lparr>reconnectDelay := 1000, reconnectAttempts := 2\<rparr>) (1/2)) envOK 0) = 0"
  using reconnect_backoff [of "(readyNode None)\<lparr>reconnectDelay := 1000, reconnectAttempts := 2\<rparr>" "1/2" envOK 0]
        reconnect_backoff [of "scheduleReconnect ((readyNode None)\<lparr>reconnectDelay := 1000, reconnectAttempts := 2\<rparr>) (1/2)" 0 envOK 0]
  by (simp add: readyNode_fields truthy_def)

section \<open>Properties of the player\<close>

lemma attemptConnection_cases:
  "\<not> destroyed p \<Longrightarrow>
   attemptConnection p outcome =
     (case (voiceServer p, voiceState p) of
        (Some server, Some state) \<Rightarrow>
          if truthy (endpoint server) then
            (case outcome of
               None \<Rightarrow> (p\<lparr>connected_p := True\<rparr>, [voice_call p server state])
             | Some e \<Rightarrow> (p, [voice_call p server state, Emit (P_error e)]))
          else (p, [])
      | _ \<Rightarrow> (p, []))"
  by (simp add: attemptConnection_def voice_call_def Let_def split: option.splits)

lemma voice_calls_attempt:
  "\<not> destroyed p \<Longrightarrow>
   (voice_calls (snd (attemptConnection p outcome)) \<noteq> []) = handshake_complete p"
  by (simp add: attemptConnection_cases handshake_complete_def voice_calls_def voice_call_def
        empty_payload_def split: option.splits)

lemma pending_attempt:
  "voiceServer (fst (attemptConnection p outcome)) = voiceServer p"
  "voiceState (fst (attemptConnection p outcome)) = voiceState p"
  "destroyed (fst (attemptConnection p outcome)) = destroyed p"
  by (simp_all add: attemptConnection_def Let_def split: option.splits)

lemma handshake_complete_attempt:
  "handshake_complete (fst (attemptConnection p outcome)) = handshake_complete p"
  by (simp add: handshake_complete_def pending_attempt)

lemma voice_step_alive: "\<not> destroyed p \<Longrightarrow> \<not> destroyed (fst (voice_step p i))"
  by (cases "(p, i)" rule: voice_step.cases)
     (simp_all add: voiceServerUpdate_def voiceStateUpdate_def pending_attempt)

lemma voice_run_alive: "\<not> destroyed p \<Longrightarrow> \<not> destroyed (voice_run p ins)"
  by (induction ins arbitrary: p) (simp_all add: voice_step_alive)

lemma voice_step_server:
  "\<not> destroyed p \<Longrightarrow>
   (voice_calls (snd (voice_step p (ServerUpdate u, outcome))) \<noteq> [])
     = handshake_complete (fst (voice_step p (ServerUpdate u, outcome)))"
  by (simp add: voiceServerUpdate_def voice_calls_attempt handshake_complete_attempt)

lemma voice_step_state:
  "\<not> destroyed p \<Longrightarrow> truthy (channel_id s) \<Longrightarrow>
   (voice_calls (snd (voice_step p (StateUpdate s, outcome))) \<noteq> [])
     = handshake_complete (fst (voice_step p (StateUpdate s, outcome)))"
  by (simp add: voiceStateUpdate_def voice_calls_attempt handshake_complete_attempt)

lemma voice_step_left:
  "\<not> destroyed p \<Longrightarrow> \<not> truthy (channel_id s) \<Longrightarrow>
   voice_step p (StateUpdate s, outcome) = (p\<lparr>voiceChannel := None, connected_p := False\<rparr>, [])"
  by (simp add: voiceStateUpdate_def)

lemma voice_step_success:
  "\<not> destroyed p \<Longrightarrow> voice_calls (snd (voice_step p (i, None))) \<noteq> [] \<Longrightarrow>
   connected_p (fst (voice_step p (i, None)))"
  by (cases i)
     (auto simp: voiceServerUpdate_def voiceStateUpdate_def attemptConnection_cases voice_calls_def
           split: option.splits if_splits)

lemma guildId_attempt: "guildId (fst (attemptConnection p outcome)) = guildId p"
  by (simp add: attemptConnection_def Let_def split: option.splits)

lemma voice_calls_attempt_eq:
  "\<not> destroyed p \<Longrightarrow> voiceServer p = Some sv \<Longrightarrow> voiceState p = Some st \<Longrightarrow>
   voice_calls (snd (attemptConnection p outcome))
     = (if truthy (endpoint sv) then [voice_call p sv st] else [])"
  by (simp add: attemptConnection_cases voice_calls_def voice_call_def empty_payload_def
           split: option.splits)

lemma voice_step_call:
  assumes "\<not> destroyed p"
    and "voiceServer (fst (voice_step p (i, outcome))) = Some sv"
    and "voiceState (fst (voice_step p (i, outcome))) = Some st"
    and "voice_calls (snd (voice_step p (i, outcome))) \<noteq> []"
  shows "voice_calls (snd (voice_step p (i, outcome))) = [voice_call p sv st]"
proof (cases i)
  case (ServerUpdate u)
  let ?q = "p\<lparr>voiceServer := Some u\<rparr>"
  have "voiceServer ?q = Some sv" "voiceState ?q = Some st"
    using assms(1-3) ServerUpdate by (simp_all add: voiceServerUpdate_def pending_attempt)
  with assms(1,4) ServerUpdate voice_calls_attempt_eq [of ?q sv st outcome]
  show ?thesis
    by (auto simp: voiceServerUpdate_def voice_call_def split: if_splits)
next
  case (StateUpdate u)
  show ?thesis
  proof (cases "truthy (channel_id u)")
    case True
    let ?q = "p\<lparr>voiceChannel := channel_id u, voiceState := Some u\<rparr>"
    have "voiceServer ?q = Some sv" "voiceState ?q = Some st"
      using assms(1-3) StateUpdate True by (simp_all add: voiceStateUpdate_def pending_attempt)
    with assms(1,4) StateUpdate True voice_calls_attempt_eq [of ?q sv st outcome]
    show ?thesis
      by (auto simp: voiceStateUpdate_def voice_call_def split: if_splits)
  next
    case False
    with assms(1,4) StateUpdate show ?thesis
      by (simp add: voiceStateUpdate_def voice_calls_def)
  qed
qed

text \<open>
  Claim C5, as the code has it. Take a player that is not destroyed, after any sequence of
  voice inputs. On the arrival of a \<open>voice_server_update\<close>, and of a \<open>voice_state_update\<close> that
  names a channel, the update is stored as pending and a voice REST call is issued exactly
  when the handshake is complete: both updates are pending and the endpoint of the pending
  server update is a non-empty string (a null and an empty endpoint count alike as
  missing). The call is \<open>updatePlayer\<close> for the player's guild with the voice payload
  \<open>{token, endpoint, sessionId}\<close> taken from the two pending updates; when it succeeds
  \<open>connected\<close> is true afterwards. A \<open>voice_state_update\<close> whose channel is null (or empty)
  clears \<open>voiceChannel\<close>, sets \<open>connected\<close> to false, changes nothing else and issues no call.
\<close>

theorem voice_handshake:
  "\<not> destroyed p0 \<longrightarrow>
     (let p = voice_run p0 ins in
        \<not> destroyed p
      \<and> ((voice_calls (snd (voice_step p (ServerUpdate u, outcome))) \<noteq> [])
           = handshake_complete (fst (voice_step p (ServerUpdate u, outcome))))
      \<and> (truthy (channel_id s) \<longrightarrow>
           (voice_calls (snd (voice_step p (StateUpdate s, outcome))) \<noteq> [])
             = handshake_complete (fst (voice_step p (StateUpdate s, outcome))))
      \<and> (voice_calls (snd (voice_step p (i, outcome))) \<noteq> []
           \<and> voiceServer (fst (voice_step p (i, outcome))) = Some sv
           \<and> voiceState (fst (voice_step p (i, outcome))) = Some st \<longrightarrow>
           voice_calls (snd (voice_step p (i, outcome))) = [voice_call p sv st])
      \<and> (voice_calls (snd (voice_step p (i, None))) \<noteq> [] \<longrightarrow>
           connected_p (fst (voice_step p (i, None))))
      \<and> (\<not> truthy (channel_id s) \<longrightarrow>
           voice_step p (StateUpdate s, outcome)
             = (p\<lparr>voiceChannel := None, connected_p := False\<rparr>, [])))"
  using voice_run_alive [of p0 ins]
  by (simp add: Let_def voice_step_server voice_step_state voice_step_left voice_step_success
           voice_step_call del: voice_step.simps)

lemma joinedPlayer_eq:
  "joinedPlayer = (new_Player guild0 ''test-node'')
       \<lparr>voiceChannel := Some ''223456789012345678'',
        voiceState := Some (state0 (Some ''223456789012345678''))\<rparr>"
  by (simp add: joinedPlayer_def voiceStateUpdate_def attemptConnection_def new_Player_def
        state0_def truthy_def)

lemma joinedPlayer_fields:
  "destroyed joinedPlayer = False"
  "voiceServer joinedPlayer = None"
  "voiceState joinedPlayer = Some (state0 (Some ''223456789012345678''))"
  "voiceChannel joinedPlayer = Some ''223456789012345678''"
  "guildId joinedPlayer = guild0"
  "connected_p joinedPlayer = False"
  by (simp_all add: joinedPlayer_eq new_Player_def)

text \<open>
  The claim as stated fails for an endpoint that is not null but empty: with the voice state
  pending, a server update with the endpoint \<open>""\<close> is stored, both updates are pending, the
  endpoint is non-null, and no call is issued.
\<close>

theorem voice_handshake_counterexample:
  "voiceServer (fst (voiceServerUpdate joinedPlayer (server0 (Some [])) None))
     = Some (server0 (Some []))
   \<and> voiceState (fst (voiceServerUpdate joinedPlayer (server0 (Some [])) None))
     = Some (state0 (Some ''223456789012345678''))
   \<and> endpoint (server0 (Some [])) \<noteq> None
   \<and> snd (voiceServerUpdate joinedPlayer (server0 (Some [])) None) = []"
  by (simp add: voiceServerUpdate_def attemptConnection_def joinedPlayer_fields server0_def
        truthy_def)

lemma fixture_fields:
  "endpoint (server0 ep) = ep" "token (server0 ep) = ''tok''"
  "channel_id (state0 ch) = ch" "session_id (state0 ch) = ''voice-session''"
  by (simp_all add: server0_def state0_def)

lemma voice_step_pending:
  "\<not> destroyed p \<Longrightarrow> voiceServer (fst (voice_step p (ServerUpdate u, outcome))) = Some u"
  "\<not> destroyed p \<Longrightarrow> voiceState (fst (voice_step p (ServerUpdate u, outcome))) = voiceState p"
  by (simp_all add: voiceServerUpdate_def pending_attempt)

theorem voice_handshake_witness:
  "voice_calls (snd (voice_step joinedPlayer
                       (ServerUpdate (server0 (Some ''eu1.discord.media:443'')), None)))
     = [voice_call joinedPlayer (server0 (Some ''eu1.discord.media:443''))
          (state0 (Some ''223456789012345678''))]
   \<and> connected_p
        (fst (voice_step joinedPlayer (ServerUpdate (server0 (Some ''eu1.discord.media:443'')), None)))
   \<and> voice_calls (snd (voice_step joinedPlayer (ServerUpdate (server0 None), None))) = []
   \<and> voice_step
        (voice_run joinedPlayer [(ServerUpdate (server0 (Some ''eu1.discord.media:443'')), None)])
        (StateUpdate (state0 None), None)
      = ((voice_run joinedPlayer [(ServerUpdate (server0 (Some ''eu1.discord.media:443'')), None)])
           \<lparr>voiceChannel := None, connected_p := False\<rparr>, [])"
proof -
  let ?u = "server0 (Some ''eu1.discord.media:443'')"
  let ?s = "state0 (Some ''223456789012345678'')"
  have alive: "\<not> destroyed joinedPlayer" by (simp add: joinedPlayer_fields)
  note pend = voice_step_pending [OF alive] joinedPlayer_fields fixture_fields
  note h1 = voice_handshake [of joinedPlayer "[]" ?u None "state0 None" "ServerUpdate ?u" ?u ?s]
  note h2 = voice_handshake [of joinedPlayer "[]" "server0 None" None "state0 None"
                               "ServerUpdate (server0 None)" ?u ?s]
  note h3 = voice_handshake [of joinedPlayer "[(ServerUpdate ?u, None)]" ?u None "state0 None"
                               "ServerUpdate ?u" ?u ?s]
  have c0: "voice_calls (snd (voice_step joinedPlayer (ServerUpdate ?u, None))) \<noteq> []"
    using h1 alive
    by (simp add: Let_def handshake_complete_def pend truthy_def del: voice_step.simps)
  have c1: "voice_calls (snd (voice_step joinedPlayer (ServerUpdate ?u, None)))
            = [voice_call joinedPlayer ?u ?s]"
    using h1 alive c0 by (simp add: Let_def pend del: voice_step.simps)
  have c2: "connected_p (fst (voice_step joinedPlayer (ServerUpdate ?u, None)))"
    using h1 alive c0 by (simp add: Let_def del: voice_step.simps)
  have c3: "voice_calls (snd (voice_step joinedPlayer (ServerUpdate (server0 None), None))) = []"
    using h2 alive
    by (simp add: Let_def handshake_complete_def pend truthy_def del: voice_step.simps)
  have c4: "voice_step (voice_run joinedPlayer [(ServerUpdate ?u, None)])
              (StateUpdate (state0 None), None)
            = ((voice_run joinedPlayer [(ServerUpdate ?u, None)])
                 \<lparr>voiceChannel := None, connected_p := False\<rparr>, [])"
    using h3 alive by (simp add: Let_def fixture_fields truthy_def del: voice_step.simps voice_run.simps)
  from c1 c2 c3 c4 show ?thesis by blast
qed

text \<open>
  Claim C9, as the code has it. For a player that is not destroyed, a \<open>voice_state_update\<close>
  with a null channel sets \<open>voiceChannel\<close> to null and \<open>connected\<close> to false and leaves every
  other field as it is; in particular the pending server update and the voice state stored
  before are kept. So when a voice state was stored, a single later \<open>voice_server_update\<close>
  whose endpoint is a non-empty string issues a voice REST call, with the session id of the
  stored voice state.
\<close>

theorem voice_state_null_frame:
  "\<not> destroyed p \<and> channel_id s = None \<longrightarrow>
     voiceStateUpdate p s outcome = (p\<lparr>voiceChannel := None, connected_p := False\<rparr>, [])
   \<and> voiceServer (fst (voiceStateUpdate p s outcome)) = voiceServer p
   \<and> voiceState (fst (voiceStateUpdate p s outcome)) = voiceState p
   \<and> (voiceState p = Some st \<and> truthy (endpoint u) \<longrightarrow>
        voice_calls (snd (voiceServerUpdate (fst (voiceStateUpdate p s outcome)) u outcome'))
          = [voice_call p u st]
        \<and> snd (voiceServerUpdate (fst (voiceStateUpdate p s outcome)) u None)
          = [voice_call p u st])"
  by (auto simp: voiceStateUpdate_def voiceServerUpdate_def truthy_def attemptConnection_cases
        voice_calls_def voice_call_def empty_payload_def split: option.splits)

text \<open>
  The last part of the claim as stated fails for an endpoint that is not null but empty:
  after the null-channel update the stored voice state is still there, and a server update
  with the endpoint \<open>""\<close> issues no call.
\<close>

theorem voice_state_null_frame_counterexample:
  "voiceState (fst (voiceStateUpdate joinedPlayer (state0 None) None))
     = Some (state0 (Some ''223456789012345678''))
   \<and> endpoint (server0 (Some [])) \<noteq> None
   \<and> snd (voiceServerUpdate (fst (voiceStateUpdate joinedPlayer (state0 None) None))
             (server0 (Some [])) None) = []"
  by (simp add: voiceStateUpdate_def voiceServerUpdate_def attemptConnection_def
        joinedPlayer_fields fixture_fields truthy_def)

theorem voice_state_null_frame_witness:
  "voiceStateUpdate joinedPlayer (state0 None) None
     = (joinedPlayer\<lparr>voiceChannel := None, connected_p := False\<rparr>, [])
   \<and> snd (voiceServerUpdate (fst (voiceStateUpdate joinedPlayer (state0 None) None))
             (server0 (Some ''eu1.discord.media:443'')) None)
     = [voice_call joinedPlayer (server0 (Some ''eu1.discord.media:443''))
          (state0 (Some ''223456789012345678''))]"
proof -
  have h: "\<not> destroyed joinedPlayer \<and> channel_id (state0 None) = None"
    by (simp add: joinedPlayer_fields fixture_fields)
  have v: "voiceState joinedPlayer = Some (state0 (Some ''223456789012345678''))
           \<and> truthy (endpoint (server0 (Some ''eu1.discord.media:443'')))"
    by (simp add: joinedPlayer_fields fixture_fields truthy_def)
  from voice_state_null_frame [of joinedPlayer "state0 None" None
          "state0 (Some ''223456789012345678'')" "server0 (Some ''eu1.discord.media:443'')"
          None] h v
  show ?thesis by blast
qed

section \<open>Destroying a player\<close>

lemma checkDestroyed_Some [simp]: "destroyed p \<Longrightarrow> checkDestroyed p = Some destroyed_error"
  by (simp add: checkDestroyed_def)

lemma run_op_destroyed:
  "destroyed p \<Longrightarrow> run_op p n rnd outcome op = (Inl destroyed_error, p, [])"
  by (cases op)
     (simp_all add: connect_p_def disconnect_p_def play_def stop_def pause_def resume_def
        seek_def setVolume_def setFilters_def clearFilters_def addTrack_def addTracks_def
        removeTrack_def clearQueue_def shuffleQueue_def smartShuffleQueue_def skip_def
        setLoop_def)

lemma destroy_sets_latch: "destroyed (fst (snd (destroy p outcome)))"
  by (simp add: destroy_def Let_def)

lemma destroy_total: "fst (destroy p outcome) = Inr R_void"
  by (simp add: destroy_def Let_def)

lemma destroy_again: "destroyed p \<Longrightarrow> destroy p outcome = (Inr R_void, p, [])"
  by (simp add: destroy_def)

lemma map_of_delete_self [simp]: "map_of (AList.delete g al) g = None"
  by (simp add: AList.delete_eq map_of_eq_None_iff image_iff)

lemma deliver_keeps_absent:
  "map_of (players_r r) g = None \<Longrightarrow> map_of (players_r (deliver g a r)) g = None"
  by (cases "(g, a, r)" rule: deliver.cases) simp_all

lemma fold_deliver_keeps_absent:
  "map_of (players_r r) g = None \<Longrightarrow> map_of (players_r (fold (deliver g) acts r)) g = None"
  by (induction acts arbitrary: r) (simp_all add: deliver_keeps_absent)

lemma player_destroy_removes:
  assumes "map_of (players_r r) g = Some p" "\<not> destroyed p"
  shows "map_of (players_r (player_destroy r g outcome)) g = None"
proof -
  obtain p' where d: "destroy p outcome
      = (Inr R_void, p',
         (Call_destroyPlayer (guildId p)
          # (case outcome of None \<Rightarrow> []
             | Some e \<Rightarrow> [Console_error (''[Player '' @ guildId p @ ''] Error during destroy:'')]))
         @ [Emit P_destroy, RemoveAllListeners])"
    using assms(2) by (cases outcome) (simp_all add: destroy_def Let_def)
  show ?thesis
    using assms(1) d
    by (cases outcome) (simp_all add: player_destroy_def fold_deliver_keeps_absent)
qed

text \<open>
  Claim C8. \<open>Player.destroy\<close> never fails, whatever the outcome of the node's
  \<open>destroyPlayer\<close> (an error is logged and dropped), and sets the \<open>destroyed\<close> latch; a second
  call returns at once with no effect. After the first call every other operation of the
  player (\<open>connect\<close>, \<open>disconnect\<close>, \<open>play\<close>, \<open>stop\<close>, \<open>pause\<close>, \<open>resume\<close>, \<open>seek\<close>, \<open>setVolume\<close>,
  \<open>setFilters\<close>, \<open>clearFilters\<close>, the queue operations, \<open>skip\<close>, \<open>setLoop\<close>) fails with
  \<open>PLAYER_NOT_FOUND\<close> and has no effect, and the player created by the cluster is no longer
  in the cluster's registry, both after \<open>player.destroy()\<close> and after \<open>Rias.destroy(guild)\<close>.
  (The two voice inputs are not operations of the user: a destroyed player ignores them
  silently.)
\<close>

theorem destroy_latch:
  "fst (destroy p outcome) = Inr R_void
   \<and> destroyed (fst (snd (destroy p outcome)))
   \<and> destroy (fst (snd (destroy p outcome))) outcome'
       = (Inr R_void, fst (snd (destroy p outcome)), [])
   \<and> run_op (fst (snd (destroy p outcome))) n rnd outcome' op
       = (Inl (RiasError PLAYER_NOT_FOUND ''Player has been destroyed''),
          fst (snd (destroy p outcome)), [])
   \<and> voiceServerUpdate (fst (snd (destroy p outcome))) u outcome'
       = (fst (snd (destroy p outcome)), [])
   \<and> voiceStateUpdate (fst (snd (destroy p outcome))) s outcome'
       = (fst (snd (destroy p outcome)), [])
   \<and> (map_of (players_r r) g = Some p \<and> \<not> destroyed p \<longrightarrow>
        map_of (players_r (player_destroy r g outcome)) g = None
        \<and> map_of (players_r (snd (destroy_r r g outcome))) g = None)"
  using run_op_destroyed [OF destroy_sets_latch, of p outcome n rnd outcome' op]
  by (simp add: destroy_total destroy_sets_latch destroy_again player_destroy_removes
        destroyed_error_def voiceServerUpdate_def voiceStateUpdate_def destroy_r_def Let_def)

lemma readyNode_id: "node_id (readyNode key) = ''test-node''"
proof -
  have "node_id (connectingNode key) = ''test-node''"
    by (simp add: connectingNode_def connect_def freshNode_def new_Node_def
          createNodeOptions_def Let_def)
  then have "node_id (socket_opened (connectingNode key)) = ''test-node''"
    by (simp add: socket_opened_def split: option.splits)
  then have "node_id (openedNode key) = ''test-node''"
    using onOpen_link [of "socket_opened (connectingNode key)" envOK 0]
    by (simp add: openedNode_def same_link_def)
  then show ?thesis by (simp add: readyNode_def emit_def)
qed

lemma isValidGuildId_guild0: "isValidGuildId guild0"
  by (simp add: isValidGuildId_def guild0_def is_digit_def)

lemma rias_with_player_registry:
  "players_r rias_with_player = [(guild0, new_Player guild0 ''test-node'')]"
  by (simp add: rias_with_player_def create_def rias1_def isValidGuildId_guild0
        getOptimalNode_def eligible_def isReady_def readyNode_fields readyNode_id Let_def)

theorem destroy_latch_witness:
  "map_of (players_r rias_with_player) guild0 = Some (new_Player guild0 ''test-node'')
   \<and> map_of (players_r (player_destroy rias_with_player guild0 (Some (Error ''boom'')))) guild0
       = None
   \<and> fst (destroy (new_Player guild0 ''test-node'') (Some (Error ''boom''))) = Inr R_void
   \<and> fst (run_op (fst (snd (destroy (new_Player guild0 ''test-node'') (Some (Error ''boom'')))))
             (readyNode None) (\<lambda>k. 0) None Op_stop)
       = Inl (RiasError PLAYER_NOT_FOUND ''Player has been destroyed'')"
proof -
  have h: "map_of (players_r rias_with_player) guild0 = Some (new_Player guild0 ''test-node'')
           \<and> \<not> destroyed (new_Player guild0 ''test-node'')"
    by (simp add: rias_with_player_registry new_Player_def)
  from destroy_latch [of "new_Player guild0 ''test-node''" "Some (Error ''boom'')" None
                         "readyNode None" "\<lambda>k. 0" Op_stop "server0 None" "state0 None"
                         rias_with_player guild0] h
  show ?thesis by simp
qed

section \<open>Properties of the cluster\<close>


lemma first_by_empty [simp]: "first_by k [] = None"
  by (simp add: first_by_def)


lemma clusterNode_fields:
  "connected (clusterNode i rg pr pl ld)"
  "isReady (clusterNode i rg pr pl ld)"
  "region (clusterNode i rg pr pl ld) = Some rg"
  "priority (clusterNode i rg pr pl ld) = pr"
  "node_id (clusterNode i rg pr pl ld) = i"
  "players (stats (clusterNode i rg pr pl ld)) = pl"
  "lavalinkLoad (cpu (stats (clusterNode i rg pr pl ld))) = ld"
  "combined_load (clusterNode i rg pr pl ld) = ld * (1 + pl * (1 / 10))"
  by (simp_all add: clusterNode_def isReady_def readyNode_fields combined_load_def)




lemma nodes_distinct: "nodeA \<noteq> nodeB" "nodeA \<noteq> nodeC" "nodeB \<noteq> nodeC"
proof -
  have "node_id nodeA \<noteq> node_id nodeB" "node_id nodeA \<noteq> node_id nodeC"
       "node_id nodeB \<noteq> node_id nodeC"
    by (simp_all add: nodeA_def nodeB_def nodeC_def clusterNode_fields)
  then show "nodeA \<noteq> nodeB" "nodeA \<noteq> nodeC" "nodeB \<noteq> nodeC" by auto
qed



end
